theory Spec2Isabelle
  imports Main
begin

section \<open>GeoExt.data.LayerStore: a record store kept in step with a map's layer collection\<close>

text \<open>
  The store (an \<open>Ext.data.Store\<close>) holds one record per layer; the map holds its layers in
  an \<open>ol.Collection\<close>. The handlers of \<open>LayerStore.js\<close> replay a change of one
  collection on the other and use the flags \<open>_adding\<close> and \<open>_removing\<close> to ignore the
  notification their own change causes.

  Objects are modelled by reference: a layer and a record are numbers, and two heaps give
  the objects behind them, so that \<open>===\<close> of the source is equality of references.
\<close>

subsection \<open>Objects\<close>

type_synonym layer_ref = nat
type_synonym record_ref = nat

text \<open>The values a title takes, with the truth value JavaScript gives them in a test.\<close>

datatype jsval = Undefined | Str string

fun truthy :: "jsval \<Rightarrow> bool" where
  "truthy Undefined = False"
| "truthy (Str s) = (s \<noteq> [])"

text \<open>
  An \<open>ol.layer\<close> object as far as the store touches it: the properties read by
  \<open>get(key)\<close>, and the number of registrations of the pair
  \<open>(me.onChangeLayer, me)\<close> for its \<open>propertychange\<close> event.
\<close>

record ol_layer =
  props :: "string \<Rightarrow> jsval"
  listeners :: nat

text \<open>
  A record of the store: \<open>getOlLayer()\<close>, the field \<open>title\<close>, and the entry
  \<open>record.modified.title\<close>, which \<open>Ext.data.Model\<close> keeps as the value the field had
  before its first uncommitted edit (\<open>None\<close>: no such entry).
\<close>

record layer_record =
  olLayer :: layer_ref
  title :: jsval
  modified_title :: "jsval option"

text \<open>The third argument of the store's \<open>update\<close> event (\<open>Ext.data.Record.EDIT\<close> and its siblings).\<close>

datatype operation = EDIT | REJECT | COMMIT

text \<open>What \<open>proxy.reader.read\<close> returns.\<close>

record result_set =
  result_success :: bool
  result_total :: nat
  result_records :: "record_ref list"

text \<open>
  What is observed of a run: every effective change of either collection or of a title,
  the call \<open>fireEvent("update", ...)\<close> of \<open>onChangeLayer\<close>, the \<open>bind\<close> event, and
  an \<open>update\<close> notification of the store as a listener that records it receives it.
\<close>

datatype event =
    Model_inserted int "record_ref list"
  | Model_removed record_ref
  | Model_title_set record_ref jsval
  | Target_inserted layer_ref
  | Target_removed layer_ref
  | Target_prop_set layer_ref string jsval
  | Update_fired record_ref operation
  | Update_notified record_ref operation
  | Bind_fired

text \<open>
  The store, the one map it can be bound to, and the two heaps.
  \<^item> \<open>map_set\<close>: \<open>me.map\<close> is not null; \<open>store_data\<close>: the records of the store in order;
    \<open>adding\<close>, \<open>removing\<close>, \<open>addRecords\<close>: the fields \<open>_adding\<close>, \<open>_removing\<close>,
    \<open>_addRecords\<close> (deleted is \<open>False\<close>);
  \<^item> \<open>on_load\<close> ... \<open>on_replace\<close>: whether the handler of that name is registered on the
    store (on \<open>me.data\<close> for \<open>replace\<close>); \<open>Ext.util.Observable\<close> keeps one registration
    of a handler and scope;
  \<^item> \<open>layers\<close>: the array of the map's layer collection; \<open>col_add\<close>, \<open>col_remove\<close>: the
    number of registrations of \<open>onAddLayer\<close> and \<open>onRemoveLayer\<close> on it;
  \<^item> \<open>reader\<close>: \<open>proxy.reader.read\<close>, \<open>None\<close> when it throws;
  \<^item> \<open>keep_duplicates\<close>: what the \<open>ol.Observable\<close> at hand does when \<open>on\<close> is called
    with a handler and scope that are registered already: record it once more (\<open>True\<close>),
    or ignore the call (\<open>False\<close>, as the Closure-based OpenLayers 3 does).
\<close>

record state =
  map_set :: bool
  store_data :: "record_ref list"
  totalCount :: nat
  adding :: bool
  removing :: bool
  addRecords :: bool
  on_load :: bool
  on_clear :: bool
  on_add :: bool
  on_remove :: bool
  on_update :: bool
  on_replace :: bool
  recs :: "record_ref \<Rightarrow> layer_record"
  lyrs :: "layer_ref \<Rightarrow> ol_layer"
  layers :: "layer_ref list"
  col_add :: nat
  col_remove :: nat
  reader :: "layer_ref list \<Rightarrow> result_set option"
  keep_duplicates :: bool
  trace :: "event list"

subsection \<open>Results, exceptions and sequencing\<close>

datatype js_error = TypeError | ReaderError

text \<open>
  A call returns (\<open>Done\<close>), throws (\<open>Threw\<close>, with the state at the throw: nothing in the
  source catches), or exhausts the bound on nested notifications (\<open>OutOfFuel\<close>).
\<close>

datatype outcome = Done state | Threw js_error state | OutOfFuel

fun then_do :: "outcome \<Rightarrow> (state \<Rightarrow> outcome) \<Rightarrow> outcome" where
  "then_do (Done s) f = f s"
| "then_do (Threw e s) f = Threw e s"
| "then_do OutOfFuel f = OutOfFuel"

text \<open>\<open>forEach\<close>, and a \<open>for\<close> loop over an array.\<close>

fun each :: "('a \<Rightarrow> state \<Rightarrow> outcome) \<Rightarrow> 'a list \<Rightarrow> state \<Rightarrow> outcome" where
  "each f [] s = Done s"
| "each f (x # xs) s = then_do (f x s) (each f xs)"

text \<open>Calling a handler once for each of its \<open>n\<close> registrations.\<close>

fun times :: "nat \<Rightarrow> (state \<Rightarrow> outcome) \<Rightarrow> state \<Rightarrow> outcome" where
  "times 0 h s = Done s"
| "times (Suc n) h s = then_do (h s) (times n h)"

text \<open>The handlers of the file, with the arguments they read.\<close>

datatype call =
    OnChangeLayer layer_ref string
  | OnAddLayer layer_ref
  | OnRemoveLayer layer_ref
  | OnLoad "record_ref list" bool
  | OnClear
  | OnAdd "record_ref list" int
  | OnRemove record_ref
  | OnStoreUpdate record_ref operation
  | OnReplace record_ref

type_synonym notify = "call \<Rightarrow> state \<Rightarrow> outcome"

subsection \<open>The collaborators: observables, the layer collection, the store\<close>

text \<open>
  The classes \<open>ol.Observable\<close>, \<open>ol.Collection\<close>, \<open>ol.Object\<close>, \<open>Ext.data.Store\<close>
  and \<open>Ext.data.Model\<close> belong to OpenLayers and Ext JS, not to the file. They are
  modelled as far as the handlers use them: the operations and notifications that the
  handlers call and listen to, with the behaviour the two libraries document. Where the
  libraries differ between versions in a way the handlers can observe (a repeated
  registration of a listener), the behaviour is a parameter of the state.
\<close>

definition ol_on :: "bool \<Rightarrow> nat \<Rightarrow> nat" where
  "ol_on keep n = (if 0 < n \<and> \<not> keep then n else Suc n)"

definition ol_un :: "nat \<Rightarrow> nat" where
  "ol_un n = n - 1"

text \<open>\<open>layer.on('propertychange', me.onChangeLayer, me)\<close> and the matching \<open>un\<close>.\<close>

definition layer_on :: "layer_ref \<Rightarrow> state \<Rightarrow> state" where
  "layer_on l s =
     s\<lparr>lyrs := (lyrs s)(l := (lyrs s l)\<lparr>listeners := ol_on (keep_duplicates s) (listeners (lyrs s l))\<rparr>)\<rparr>"

definition layer_un :: "layer_ref \<Rightarrow> state \<Rightarrow> state" where
  "layer_un l s =
     s\<lparr>lyrs := (lyrs s)(l := (lyrs s l)\<lparr>listeners := ol_un (listeners (lyrs s l))\<rparr>)\<rparr>"

text \<open>Where \<open>Array.prototype.splice(index, 0, ...)\<close> inserts in an array of length \<open>n\<close>.\<close>

definition splice_start :: "int \<Rightarrow> nat \<Rightarrow> nat" where
  "splice_start i n = (if i < 0 then nat (max 0 (int n + i)) else min (nat i) n)"

definition insert_all :: "int \<Rightarrow> 'a list \<Rightarrow> 'a list \<Rightarrow> 'a list" where
  "insert_all i ys xs =
     (let p = splice_start i (length xs) in take p xs @ ys @ drop p xs)"

text \<open>\<open>getArray().indexOf(x)\<close> and \<open>findBy(fn)\<close>: the first position, or \<open>-1\<close>.\<close>

fun findBy :: "('a \<Rightarrow> bool) \<Rightarrow> 'a list \<Rightarrow> int" where
  "findBy p [] = -1"
| "findBy p (x # xs) =
     (if p x then 0 else (let i = findBy p xs in if i > -1 then i + 1 else -1))"

definition indexOf :: "'a \<Rightarrow> 'a list \<Rightarrow> int" where
  "indexOf x xs = findBy (\<lambda>y. y = x) xs"

definition getAt :: "int \<Rightarrow> state \<Rightarrow> record_ref" where
  "getAt i s = store_data s ! nat i"

text \<open>
  \<open>ol.Collection\<close>: \<open>push\<close> appends at the end, \<open>insertAt\<close> splices, \<open>remove\<close> takes out
  the first occurrence, \<open>clear\<close> pops until the collection is empty, \<open>extend\<close> pushes each
  element; every element put in or taken out is notified to the registered handlers.
\<close>

definition col_push :: "notify \<Rightarrow> layer_ref \<Rightarrow> state \<Rightarrow> outcome" where
  "col_push k l s =
     (let s1 = s\<lparr>layers := layers s @ [l], trace := trace s @ [Target_inserted l]\<rparr>
      in times (col_add s1) (k (OnAddLayer l)) s1)"

definition col_insertAt :: "notify \<Rightarrow> int \<Rightarrow> layer_ref \<Rightarrow> state \<Rightarrow> outcome" where
  "col_insertAt k i l s =
     (let s1 = s\<lparr>layers := insert_all i [l] (layers s), trace := trace s @ [Target_inserted l]\<rparr>
      in times (col_add s1) (k (OnAddLayer l)) s1)"

definition col_remove_elem :: "notify \<Rightarrow> layer_ref \<Rightarrow> state \<Rightarrow> outcome" where
  "col_remove_elem k l s =
     (if l \<in> set (layers s) then
        (let s1 = s\<lparr>layers := remove1 l (layers s), trace := trace s @ [Target_removed l]\<rparr>
         in times (col_remove s1) (k (OnRemoveLayer l)) s1)
      else Done s)"

definition col_pop :: "notify \<Rightarrow> state \<Rightarrow> outcome" where
  "col_pop k s =
     (if layers s = [] then Done s
      else
        (let l = last (layers s);
             s1 = s\<lparr>layers := butlast (layers s), trace := trace s @ [Target_removed l]\<rparr>
         in times (col_remove s1) (k (OnRemoveLayer l)) s1))"

definition col_clear :: "notify \<Rightarrow> state \<Rightarrow> outcome" where
  "col_clear k s = each (\<lambda>_. col_pop k) (layers s) s"

definition col_extend :: "notify \<Rightarrow> layer_ref list \<Rightarrow> state \<Rightarrow> outcome" where
  "col_extend k ls s = each (col_push k) ls s"

text \<open>
  \<open>ol.Object.set\<close>: stores the value and notifies \<open>propertychange\<close> with the key to every
  registration.
\<close>

definition layer_set :: "notify \<Rightarrow> layer_ref \<Rightarrow> string \<Rightarrow> jsval \<Rightarrow> state \<Rightarrow> outcome" where
  "layer_set k l key v s =
     (let s1 = s\<lparr>lyrs := (lyrs s)(l := (lyrs s l)\<lparr>props := (props (lyrs s l))(key := v)\<rparr>),
                 trace := trace s @ [Target_prop_set l key v]\<rparr>
      in times (listeners (lyrs s1 l)) (k (OnChangeLayer l key)) s1)"

text \<open>
  \<open>Ext.data.Store\<close>: \<open>insert\<close> splices the records in and notifies \<open>add\<close> with the records
  and the index it was given; \<open>remove\<close> takes a record out and notifies \<open>remove\<close>.
\<close>

definition store_insert :: "notify \<Rightarrow> int \<Rightarrow> record_ref list \<Rightarrow> state \<Rightarrow> outcome" where
  "store_insert k index rs s =
     (if rs = [] then Done s
      else
        (let s1 = s\<lparr>store_data := insert_all index rs (store_data s),
                    trace := trace s @ [Model_inserted index rs]\<rparr>
         in if on_add s1 then k (OnAdd rs index) s1 else Done s1))"

definition store_remove :: "notify \<Rightarrow> record_ref \<Rightarrow> state \<Rightarrow> outcome" where
  "store_remove k r s =
     (if r \<in> set (store_data s) then
        (let s1 = s\<lparr>store_data := remove1 r (store_data s),
                    trace := trace s @ [Model_removed r]\<rparr>
         in if on_remove s1 then k (OnRemove r) s1 else Done s1)
      else Done s)"

text \<open>The store's \<open>update\<close> event reaching its listener.\<close>

definition notify_update :: "notify \<Rightarrow> record_ref \<Rightarrow> operation \<Rightarrow> state \<Rightarrow> outcome" where
  "notify_update k r operation s =
     (if on_update s then k (OnStoreUpdate r operation) s else Done s)"

text \<open>
  \<open>record.set("title", v)\<close> of \<open>Ext.data.Model\<close>: an equal value changes nothing; otherwise
  the field is set, \<open>modified.title\<close> keeps the value before the first edit (and goes when
  the field is set back to it), and a record that is in the store reports the edit to it,
  which notifies \<open>update\<close> with \<open>EDIT\<close>.
\<close>

definition record_set_title :: "notify \<Rightarrow> record_ref \<Rightarrow> jsval \<Rightarrow> state \<Rightarrow> outcome" where
  "record_set_title k r v s =
     (let cur = title (recs s r) in
      if cur = v then Done s
      else
        (let m = (case modified_title (recs s r) of
                    Some orig \<Rightarrow> (if orig = v then None else Some orig)
                  | None \<Rightarrow> Some cur);
             s1 = s\<lparr>recs := (recs s)(r := (recs s r)\<lparr>title := v, modified_title := m\<rparr>),
                    trace := trace s @ [Model_title_set r v]\<rparr>
         in if r \<in> set (store_data s1) then notify_update k r EDIT s1 else Done s1))"

subsection \<open>The handlers of LayerStore.js\<close>

text \<open>
  Each handler takes as \<open>k\<close> what runs a handler that a notification reaches, and is
  written statement by statement from the source. \<open>me.map.getLayers()\<close> on a null
  \<open>me.map\<close> throws a \<open>TypeError\<close>.
\<close>

definition getByLayer :: "layer_ref \<Rightarrow> state \<Rightarrow> record_ref option" where
  "getByLayer layer s =
     (let index = findBy (\<lambda>r. olLayer (recs s r) = layer) (store_data s)
      in if index > -1 then Some (getAt index s) else None)"

definition onStoreUpdate :: "notify \<Rightarrow> record_ref \<Rightarrow> operation \<Rightarrow> state \<Rightarrow> outcome" where
  "onStoreUpdate k record operation s =
     (if operation = EDIT then
        (if (case modified_title (recs s record) of None \<Rightarrow> False | Some v \<Rightarrow> truthy v) then
           (let layer = olLayer (recs s record);
                title = title (recs s record)
            in if title \<noteq> props (lyrs s layer) ''title''
               then layer_set k layer ''title'' title s
               else Done s)
         else Done s)
      else Done s)"

definition onChangeLayer :: "notify \<Rightarrow> layer_ref \<Rightarrow> string \<Rightarrow> state \<Rightarrow> outcome" where
  "onChangeLayer k layer key s =
     (let recordIndex = findBy (\<lambda>rec. olLayer (recs s rec) = layer) (store_data s)
      in if recordIndex > -1 then
           (let record = getAt recordIndex s
            in if key = ''title''
               then record_set_title k record (props (lyrs s layer) ''title'') s
               else notify_update k record EDIT
                      (s\<lparr>trace := trace s @ [Update_fired record EDIT]\<rparr>))
         else Done s)"

definition onAddLayer :: "notify \<Rightarrow> layer_ref \<Rightarrow> state \<Rightarrow> outcome" where
  "onAddLayer k layer s =
     (if \<not> map_set s then Threw TypeError s
      else
        (let index = indexOf layer (layers s);
             s1 = layer_on layer s
         in if \<not> adding s1 then
              (let s2 = s1\<lparr>adding := True\<rparr>
               in case reader s2 [layer] of
                    None \<Rightarrow> Threw ReaderError s2
                  | Some result \<Rightarrow>
                      then_do (store_insert k index (result_records result) s2)
                        (\<lambda>s3. Done (s3\<lparr>adding := False\<rparr>)))
            else Done s1))"

definition onRemoveLayer :: "notify \<Rightarrow> layer_ref \<Rightarrow> state \<Rightarrow> outcome" where
  "onRemoveLayer k layer s =
     (if \<not> removing s then
        (case getByLayer layer s of
           Some rec \<Rightarrow>
             (let s1 = s\<lparr>removing := True\<rparr>;
                  s2 = layer_un layer s1
              in then_do (store_remove k rec s2) (\<lambda>s3. Done (s3\<lparr>removing := False\<rparr>)))
         | None \<Rightarrow> Done s)
      else Done s)"

definition onLoad :: "notify \<Rightarrow> record_ref list \<Rightarrow> bool \<Rightarrow> state \<Rightarrow> outcome" where
  "onLoad k records successful s =
     then_do
       (if successful then
          then_do
            (if \<not> addRecords s then
               (let s1 = s\<lparr>removing := True\<rparr>
                in if \<not> map_set s1 then Threw TypeError s1
                   else then_do (col_clear k (fold layer_un (layers s1) s1))
                          (\<lambda>s2. Done (s2\<lparr>removing := False\<rparr>)))
             else Done s)
            (\<lambda>s3. if records \<noteq> [] then
                     (let ls = map (\<lambda>r. olLayer (recs s3 r)) records;
                          s4 = fold layer_on ls s3;
                          s5 = s4\<lparr>adding := True\<rparr>
                      in if \<not> map_set s5 then Threw TypeError s5
                         else then_do (col_extend k ls s5)
                                (\<lambda>s6. Done (s6\<lparr>adding := False\<rparr>)))
                   else Done s3)
        else Done s)
       (\<lambda>s7. Done (s7\<lparr>addRecords := False\<rparr>))"

definition onClear :: "notify \<Rightarrow> state \<Rightarrow> outcome" where
  "onClear k s =
     (let s1 = s\<lparr>removing := True\<rparr>
      in if \<not> map_set s1 then Threw TypeError s1
         else then_do (col_clear k (fold layer_un (layers s1) s1))
                (\<lambda>s2. Done (s2\<lparr>removing := False\<rparr>)))"

definition onAdd :: "notify \<Rightarrow> record_ref list \<Rightarrow> int \<Rightarrow> state \<Rightarrow> outcome" where
  "onAdd k records index s =
     (if \<not> adding s then
        then_do
          (each (\<lambda>r st.
                   (let layer = olLayer (recs st r);
                        st1 = layer_on layer st
                    in if \<not> map_set st1 then Threw TypeError st1
                       else if index = 0 then col_push k layer st1
                       else col_insertAt k index layer st1))
             records (s\<lparr>adding := True\<rparr>))
          (\<lambda>s2. Done (s2\<lparr>adding := False\<rparr>))
      else Done s)"

definition removeMapLayer :: "notify \<Rightarrow> record_ref \<Rightarrow> state \<Rightarrow> outcome" where
  "removeMapLayer k record s =
     (if \<not> map_set s then Threw TypeError s
      else col_remove_elem k (olLayer (recs s record)) s)"

definition onRemove :: "notify \<Rightarrow> record_ref \<Rightarrow> state \<Rightarrow> outcome" where
  "onRemove k record s =
     (if \<not> removing s then
        (let layer = olLayer (recs s record);
             s1 = layer_un layer s
         in if \<not> map_set s1 then Threw TypeError s1
            else
              (let found = (layer \<in> set (layers s1))
               in if found then
                    then_do (removeMapLayer k record (s1\<lparr>removing := True\<rparr>))
                      (\<lambda>s2. Done (s2\<lparr>removing := False\<rparr>))
                  else Done s1))
      else Done s)"

definition onReplace :: "notify \<Rightarrow> record_ref \<Rightarrow> state \<Rightarrow> outcome" where
  "onReplace k oldRecord s = removeMapLayer k oldRecord s"

text \<open>A notification reaching a handler, and the handlers nested to a depth of at most \<open>n\<close>.\<close>

definition handle :: "notify \<Rightarrow> call \<Rightarrow> state \<Rightarrow> outcome" where
  "handle k c s =
     (case c of
        OnChangeLayer layer key \<Rightarrow> onChangeLayer k layer key s
      | OnAddLayer layer \<Rightarrow> onAddLayer k layer s
      | OnRemoveLayer layer \<Rightarrow> onRemoveLayer k layer s
      | OnLoad records successful \<Rightarrow> onLoad k records successful s
      | OnClear \<Rightarrow> onClear k s
      | OnAdd records index \<Rightarrow> onAdd k records index s
      | OnRemove record \<Rightarrow> onRemove k record s
      | OnStoreUpdate record operation \<Rightarrow> onStoreUpdate k record operation s
      | OnReplace oldRecord \<Rightarrow> onReplace k oldRecord s)"

primrec run :: "nat \<Rightarrow> call \<Rightarrow> state \<Rightarrow> outcome" where
  "run 0 c s = OutOfFuel"
| "run (Suc n) c s = handle (run n) c s"

subsection \<open>Loading, binding, unbinding, destroying\<close>

text \<open>
  \<open>loadRecords\<close> sets \<open>_addRecords\<close> when the options ask to add, then calls the parent,
  which appends the records to the store's data or replaces the data by them.
\<close>

definition loadRecords :: "record_ref list \<Rightarrow> bool \<Rightarrow> state \<Rightarrow> state" where
  "loadRecords rs options_addRecords s =
     (let s1 = (if options_addRecords then s\<lparr>addRecords := True\<rparr> else s)
      in s1\<lparr>store_data := (if options_addRecords then store_data s1 @ rs else rs)\<rparr>)"

definition loadRawData :: "notify \<Rightarrow> layer_ref list \<Rightarrow> bool \<Rightarrow> state \<Rightarrow> outcome" where
  "loadRawData k raw do_append s =
     (case reader s raw of
        None \<Rightarrow> Threw ReaderError s
      | Some result \<Rightarrow>
          if result_success result then
            (let s1 = s\<lparr>totalCount := result_total result\<rparr>;
                 s2 = loadRecords (result_records result) do_append s1
             in if on_load s2 then k (OnLoad (result_records result) True) s2 else Done s2)
          else Done s)"

text \<open>\<open>bindMap\<close> with the map of the model, which is an \<open>ol.Map\<close>.\<close>

definition bindMap :: "notify \<Rightarrow> state \<Rightarrow> outcome" where
  "bindMap k s =
     (let s1 = (if \<not> map_set s then s\<lparr>map_set := True\<rparr> else s)
      in then_do (each (\<lambda>layer. loadRawData k [layer] True) (layers s1) s1)
           (\<lambda>s2.
              (let s3 = fold layer_on (layers s2) s2;
                   s4 = s3\<lparr>col_add := ol_on (keep_duplicates s3) (col_add s3),
                           col_remove := ol_on (keep_duplicates s3) (col_remove s3)\<rparr>
               in Done (s4\<lparr>on_load := True, on_clear := True, on_add := True,
                           on_remove := True, on_update := True, on_replace := True,
                           trace := trace s4 @ [Bind_fired]\<rparr>))))"

definition unbindMap :: "state \<Rightarrow> outcome" where
  "unbindMap s =
     (let s1 = (if map_set s
                then s\<lparr>col_add := ol_un (col_add s), col_remove := ol_un (col_remove s)\<rparr>
                else s)
      in Done (s1\<lparr>on_load := False, on_clear := False, on_add := False,
                  on_remove := False, on_update := False, on_replace := False,
                  map_set := False\<rparr>))"

text \<open>
  \<open>destroy\<close> calls \<open>this.unbind()\<close> and then the parent's \<open>destroy\<close>. The file defines
  \<open>bindMap\<close> and \<open>unbindMap\<close> and no member \<open>unbind\<close>, so the call finds what the
  ancestors of the class provide under that name: \<open>inherited_unbind\<close>, \<open>None\<close> when they
  provide nothing, as is the case for \<open>Ext.data.Store\<close>. Calling an undefined member
  throws a \<open>TypeError\<close>.
\<close>

definition destroy ::
  "(state \<Rightarrow> outcome) option \<Rightarrow> (state \<Rightarrow> outcome) \<Rightarrow> state \<Rightarrow> outcome" where
  "destroy inherited_unbind parent_destroy s =
     (case inherited_unbind of
        None \<Rightarrow> Threw TypeError s
      | Some unbind \<Rightarrow> then_do (unbind s) parent_destroy)"

subsection \<open>States used as concrete inputs\<close>

text \<open>
  A store bound to a map with the layers 1 and 2, one record for each (record \<open>r\<close> is
  backed by layer \<open>r\<close>), every title \<open>roads\<close>, one listener on each of the two layers.
\<close>

definition example_bound :: state where
  "example_bound =
     \<lparr>map_set = True, store_data = [1, 2], totalCount = 2,
      adding = False, removing = False, addRecords = False,
      on_load = True, on_clear = True, on_add = True, on_remove = True,
      on_update = True, on_replace = True,
      recs = (\<lambda>r. \<lparr>olLayer = r, title = Str ''roads'', modified_title = None\<rparr>),
      lyrs = (\<lambda>l. \<lparr>props = (\<lambda>key. if key = ''title'' then Str ''roads'' else Undefined),
                    listeners = (if l = 1 \<or> l = 2 then 1 else 0)\<rparr>),
      layers = [1, 2], col_add = 1, col_remove = 1,
      reader = (\<lambda>ls. Some \<lparr>result_success = True, result_total = length ls,
                            result_records = ls\<rparr>),
      keep_duplicates = False, trace = []\<rparr>"

text \<open>The same store with a reader that reports failure.\<close>

definition example_failing_reader :: state where
  "example_failing_reader =
     example_bound\<lparr>reader := (\<lambda>ls. Some \<lparr>result_success = False, result_total = 0,
                                           result_records = []\<rparr>)\<rparr>"

subsection \<open>Reading a result\<close>

text \<open>The state a call returned, the state at a throw, and projections of a state.\<close>

fun final :: "outcome \<Rightarrow> state option" where
  "final (Done s) = Some s"
| "final (Threw e s) = None"
| "final OutOfFuel = None"

fun thrown :: "outcome \<Rightarrow> state option" where
  "thrown (Done s) = None"
| "thrown (Threw e s) = Some s"
| "thrown OutOfFuel = None"

definition listeners_of :: "layer_ref \<Rightarrow> state \<Rightarrow> nat" where
  "listeners_of l s = listeners (lyrs s l)"

definition title_of :: "record_ref \<Rightarrow> state \<Rightarrow> jsval" where
  "title_of r s = title (recs s r)"

definition layer_title :: "layer_ref \<Rightarrow> state \<Rightarrow> jsval" where
  "layer_title l s = props (lyrs s l) ''title''"

subsection \<open>What a notification does while its guard is set\<close>

text \<open>
  The state after \<open>fireEvent("update")\<close> found nothing to mirror; after \<open>push\<close> and
  \<open>insertAt\<close> when every \<open>onAddLayer\<close> they reach finds \<open>_adding\<close> set; after \<open>pop\<close>
  when every \<open>onRemoveLayer\<close> finds \<open>_removing\<close> set.
\<close>

definition update_fired :: "record_ref \<Rightarrow> state \<Rightarrow> state" where
  "update_fired r s = s\<lparr>trace := trace s @ [Update_fired r EDIT]\<rparr>"

definition pushed :: "layer_ref \<Rightarrow> state \<Rightarrow> state" where
  "pushed l s =
     (layer_on l ^^ col_add s)
       (s\<lparr>layers := layers s @ [l], trace := trace s @ [Target_inserted l]\<rparr>)"

definition inserted_at :: "int \<Rightarrow> layer_ref \<Rightarrow> state \<Rightarrow> state" where
  "inserted_at i l s =
     (layer_on l ^^ col_add s)
       (s\<lparr>layers := insert_all i [l] (layers s), trace := trace s @ [Target_inserted l]\<rparr>)"

definition popped :: "state \<Rightarrow> state" where
  "popped s =
     (if layers s = [] then s
      else s\<lparr>layers := butlast (layers s),
             trace := trace s @ [Target_removed (last (layers s))]\<rparr>)"

text \<open>What one round of the loop of \<open>onAdd\<close> does while the guard holds.\<close>

definition added_one :: "int \<Rightarrow> record_ref \<Rightarrow> state \<Rightarrow> state" where
  "added_one index r s =
     (let layer = olLayer (recs s r)
      in if index = 0 then pushed layer (layer_on layer s)
         else inserted_at index layer (layer_on layer s))"

text \<open>The same store on an observable that records a repeated registration.\<close>

definition example_keeping :: state where
  "example_keeping = example_bound\<lparr>keep_duplicates := True\<rparr>"

text \<open>
  The bound store after record 3 has replaced record 1; and after record 4, backed by
  layer 1 like record 1, has replaced it.
\<close>

definition example_replaced :: state where
  "example_replaced = example_bound\<lparr>store_data := [3, 2]\<rparr>"

definition example_rebacked :: state where
  "example_rebacked =
     example_bound\<lparr>store_data := [4, 2],
       recs := (\<lambda>r. \<lparr>olLayer = (if r = 4 then 1 else r), title = Str ''roads'',
                      modified_title = None\<rparr>)\<rparr>"

text \<open>A store not yet bound, and the map with the layers 1 and 2.\<close>

definition example_unbound :: state where
  "example_unbound =
     \<lparr>map_set = False, store_data = [], totalCount = 0,
      adding = False, removing = False, addRecords = False,
      on_load = False, on_clear = False, on_add = False, on_remove = False,
      on_update = False, on_replace = False,
      recs = (\<lambda>r. \<lparr>olLayer = r, title = Str ''roads'', modified_title = None\<rparr>),
      lyrs = (\<lambda>l. \<lparr>props = (\<lambda>key. if key = ''title'' then Str ''roads'' else Undefined),
                    listeners = 0\<rparr>),
      layers = [1, 2], col_add = 0, col_remove = 0,
      reader = (\<lambda>ls. Some \<lparr>result_success = True, result_total = length ls,
                            result_records = ls\<rparr>),
      keep_duplicates = False, trace = []\<rparr>"

text \<open>The bound store when every title is the empty string.\<close>

definition example_untitled :: state where
  "example_untitled =
     example_bound\<lparr>
       recs := (\<lambda>r. \<lparr>olLayer = r, title = Str [], modified_title = None\<rparr>),
       lyrs := (\<lambda>l. \<lparr>props = (\<lambda>key. if key = ''title'' then Str [] else Undefined),
                      listeners = (if l = 1 \<or> l = 2 then 1 else 0)\<rparr>)\<rparr>"


subsection \<open>The guard flags after a handler\<close>

text \<open>
  No flag is set in \<open>s'\<close> that was not set in \<open>s\<close>; and a way \<open>k\<close> of running nested
  handlers that never returns with a flag it did not find set.
\<close>

definition no_guard_left :: "state \<Rightarrow> state \<Rightarrow> bool" where
  "no_guard_left s s' = ((adding s' \<longrightarrow> adding s) \<and> (removing s' \<longrightarrow> removing s))"



subsection \<open>Listeners that stand for other code\<close>

text \<open>A listener of the store's \<open>update\<close> event that only records what it receives.\<close>

definition recording_listener :: notify where
  "recording_listener c s =
     (case c of
        OnStoreUpdate r operation \<Rightarrow> Done (s\<lparr>trace := trace s @ [Update_notified r operation]\<rparr>)
      | _ \<Rightarrow> Done s)"

text \<open>The bound store after the title of layer 2 was set to \<open>rivers\<close>, before any handler ran.\<close>

definition example_retitled :: state where
  "example_retitled =
     example_bound\<lparr>
       lyrs := (\<lambda>l. \<lparr>props = (\<lambda>key. if key = ''title''
                                   then (if l = 2 then Str ''rivers'' else Str ''roads'')
                                   else Undefined),
                      listeners = (if l = 1 \<or> l = 2 then 1 else 0)\<rparr>)\<rparr>"

text \<open>The bound store with a reader that reports failure and yet returns records.\<close>

definition example_failing_with_records :: state where
  "example_failing_with_records =
     example_bound\<lparr>reader := (\<lambda>ls. Some \<lparr>result_success = False, result_total = 0,
                                           result_records = ls\<rparr>)\<rparr>"

subsection \<open>Listeners that keep the guard flags\<close>


fun echo :: "call \<Rightarrow> bool" where
  "echo (OnAdd rs i) = True"
| "echo (OnRemove r) = True"
| "echo (OnAddLayer l) = True"
| "echo (OnRemoveLayer l) = True"
| "echo (OnChangeLayer l key) = False"
| "echo (OnLoad rs b) = False"
| "echo OnClear = False"
| "echo (OnStoreUpdate r operation) = False"
| "echo (OnReplace r) = False"

definition flags_stay :: "state \<Rightarrow> state \<Rightarrow> bool" where
  "flags_stay s s' = ((adding s \<longrightarrow> adding s') \<and> (removing s \<longrightarrow> removing s'))"



section \<open>Properties\<close>

subsection \<open>Lookup and iteration\<close>

lemma findBy_ge: "-1 \<le> findBy p xs"
  by (induction xs) (auto simp: Let_def)

lemma findBy_found:
  "findBy p xs > -1 \<Longrightarrow> nat (findBy p xs) < length xs \<and> p (xs ! nat (findBy p xs))"
proof (induction xs)
  case Nil
  then show ?case by simp
next
  case (Cons x xs)
  show ?case
  proof (cases "p x")
    case True
    then show ?thesis by simp
  next
    case False
    with Cons.prems have gt: "findBy p xs > -1"
      by (simp add: Let_def split: if_splits)
    with Cons.IH have ih: "nat (findBy p xs) < length xs \<and> p (xs ! nat (findBy p xs))" by simp
    from gt have "nat (findBy p xs + 1) = Suc (nat (findBy p xs))" by simp
    with False gt ih show ?thesis by (simp add: Let_def)
  qed
qed

lemma getByLayer_Some:
  "getByLayer layer s = Some r \<Longrightarrow> r \<in> set (store_data s) \<and> olLayer (recs s r) = layer"
  using findBy_found [of "\<lambda>r. olLayer (recs s r) = layer" "store_data s"]
  by (auto simp: getByLayer_def getAt_def Let_def split: if_splits)

lemma getByLayer_cong:
  "recs s' = recs s \<Longrightarrow> store_data s' = store_data s \<Longrightarrow>
   getByLayer layer s' = getByLayer layer s"
  by (simp add: getByLayer_def getAt_def Let_def)

lemma times_noop: "h s = Done s \<Longrightarrow> times n h s = Done s"
  by (induction n) auto

lemma onStoreUpdate_in_step:
  "title (recs s r) = props (lyrs s (olLayer (recs s r))) ''title'' \<Longrightarrow>
   onStoreUpdate k r operation s = Done s"
  by (simp add: onStoreUpdate_def Let_def)

lemma onChangeLayer_getByLayer:
  "onChangeLayer k layer key s =
     (case getByLayer layer s of
        None \<Rightarrow> Done s
      | Some record \<Rightarrow>
          if key = ''title''
          then record_set_title k record (props (lyrs s layer) ''title'') s
          else notify_update k record EDIT (s\<lparr>trace := trace s @ [Update_fired record EDIT]\<rparr>))"
  by (simp add: onChangeLayer_def getByLayer_def Let_def)

lemma record_set_title_result:
  "olLayer (recs s r) = layer \<Longrightarrow>
   record_set_title (run (Suc n)) r (props (lyrs s layer) ''title'') s =
     Done (if title (recs s r) = props (lyrs s layer) ''title'' then s
           else s\<lparr>recs := (recs s)(r := (recs s r)
                    \<lparr>title := props (lyrs s layer) ''title'',
                     modified_title :=
                       (case modified_title (recs s r) of
                          Some orig \<Rightarrow> if orig = props (lyrs s layer) ''title'' then None else Some orig
                        | None \<Rightarrow> Some (title (recs s r)))\<rparr>),
                  trace := trace s @ [Model_title_set r (props (lyrs s layer) ''title'')]\<rparr>)"
  by (simp add: record_set_title_def Let_def notify_update_def handle_def onStoreUpdate_in_step)

lemma onChangeLayer_title_in_step:
  "getByLayer layer s = Some r \<Longrightarrow> title (recs s r) = props (lyrs s layer) ''title'' \<Longrightarrow>
   onChangeLayer k layer ''title'' s = Done s"
  by (simp add: onChangeLayer_getByLayer record_set_title_def)

lemma layer_set_title_echo:
  assumes "getByLayer layer s = Some r"
  shows "layer_set (run (Suc n)) layer ''title'' (title (recs s r)) s =
           Done (s\<lparr>lyrs := (lyrs s)(layer := (lyrs s layer)
                     \<lparr>props := (props (lyrs s layer))(''title'' := title (recs s r))\<rparr>),
                   trace := trace s @ [Target_prop_set layer ''title'' (title (recs s r))]\<rparr>)"
proof -
  let ?s1 = "s\<lparr>lyrs := (lyrs s)(layer := (lyrs s layer)
                     \<lparr>props := (props (lyrs s layer))(''title'' := title (recs s r))\<rparr>),
               trace := trace s @ [Target_prop_set layer ''title'' (title (recs s r))]\<rparr>"
  from assms have g: "getByLayer layer ?s1 = Some r"
    by (simp add: getByLayer_cong [of ?s1 s])
  have "onChangeLayer (run n) layer ''title'' ?s1 = Done ?s1"
    by (rule onChangeLayer_title_in_step [OF g]) simp
  then have "run (Suc n) (OnChangeLayer layer ''title'') ?s1 = Done ?s1"
    by (simp add: handle_def)
  then have "times m (run (Suc n) (OnChangeLayer layer ''title'')) ?s1 = Done ?s1" for m
    by (rule times_noop)
  then show ?thesis
    by (simp add: layer_set_def Let_def)
qed

lemma onStoreUpdate_cases:
  assumes "getByLayer layer s = Some r"
  shows "\<exists>s'. onStoreUpdate (run (Suc n)) r operation s = Done s' \<and> recs s' = recs s \<and>
           store_data s' = store_data s \<and> layers s' = layers s \<and>
           (\<forall>ev \<in> set (trace s'). ev \<in> set (trace s) \<or> ev = Target_prop_set layer ''title'' (title (recs s r))) \<and>
           take (length (trace s)) (trace s') = trace s"
proof -
  from assms have l: "olLayer (recs s r) = layer"
    by (simp add: getByLayer_Some)
  show ?thesis
    using layer_set_title_echo [OF assms, of n]
    by (auto simp: onStoreUpdate_def Let_def l)
qed

subsection \<open>Listeners and guarded notifications\<close>

lemma layer_on_fields [simp]:
  "map_set (layer_on l s) = map_set s" "store_data (layer_on l s) = store_data s"
  "totalCount (layer_on l s) = totalCount s"
  "adding (layer_on l s) = adding s" "removing (layer_on l s) = removing s"
  "addRecords (layer_on l s) = addRecords s"
  "on_load (layer_on l s) = on_load s" "on_clear (layer_on l s) = on_clear s"
  "on_add (layer_on l s) = on_add s" "on_remove (layer_on l s) = on_remove s"
  "on_update (layer_on l s) = on_update s" "on_replace (layer_on l s) = on_replace s"
  "recs (layer_on l s) = recs s" "layers (layer_on l s) = layers s"
  "col_add (layer_on l s) = col_add s" "col_remove (layer_on l s) = col_remove s"
  "reader (layer_on l s) = reader s" "keep_duplicates (layer_on l s) = keep_duplicates s"
  "trace (layer_on l s) = trace s"
  by (simp_all add: layer_on_def)

lemma layer_un_fields [simp]:
  "map_set (layer_un l s) = map_set s" "store_data (layer_un l s) = store_data s"
  "totalCount (layer_un l s) = totalCount s"
  "adding (layer_un l s) = adding s" "removing (layer_un l s) = removing s"
  "addRecords (layer_un l s) = addRecords s"
  "on_load (layer_un l s) = on_load s" "on_clear (layer_un l s) = on_clear s"
  "on_add (layer_un l s) = on_add s" "on_remove (layer_un l s) = on_remove s"
  "on_update (layer_un l s) = on_update s" "on_replace (layer_un l s) = on_replace s"
  "recs (layer_un l s) = recs s" "layers (layer_un l s) = layers s"
  "col_add (layer_un l s) = col_add s" "col_remove (layer_un l s) = col_remove s"
  "reader (layer_un l s) = reader s" "keep_duplicates (layer_un l s) = keep_duplicates s"
  "trace (layer_un l s) = trace s"
  by (simp_all add: layer_un_def)

lemma listeners_layer_on [simp]:
  "listeners (lyrs (layer_on l s) l') =
     (if l' = l then ol_on (keep_duplicates s) (listeners (lyrs s l)) else listeners (lyrs s l'))"
  by (simp add: layer_on_def)

lemma listeners_layer_un [simp]:
  "listeners (lyrs (layer_un l s) l') =
     (if l' = l then ol_un (listeners (lyrs s l)) else listeners (lyrs s l'))"
  by (simp add: layer_un_def)

lemma props_layer_on [simp]: "props (lyrs (layer_on l s) l') = props (lyrs s l')"
  by (simp add: layer_on_def)

lemma props_layer_un [simp]: "props (lyrs (layer_un l s) l') = props (lyrs s l')"
  by (simp add: layer_un_def)

lemma each_fold:
  assumes "\<And>x s. P s \<Longrightarrow> f x s = Done (g x s) \<and> P (g x s)" and "P s"
  shows "each f xs s = Done (fold g xs s) \<and> P (fold g xs s)"
  using assms(2)
proof (induction xs arbitrary: s)
  case Nil
  then show ?case by simp
next
  case (Cons x xs)
  from assms(1) [OF Cons.prems] have "f x s = Done (g x s)" "P (g x s)" by simp_all
  with Cons.IH [of "g x s"] show ?case by simp
qed

lemma times_funpow:
  assumes "\<And>s. P s \<Longrightarrow> h s = Done (g s) \<and> P (g s)" and "P s"
  shows "times n h s = Done ((g ^^ n) s) \<and> P ((g ^^ n) s)"
  using assms(2)
proof (induction n arbitrary: s)
  case 0
  then show ?case by simp
next
  case (Suc n)
  from assms(1) [OF Suc.prems] have "h s = Done (g s)" "P (g s)" by simp_all
  with Suc.IH [of "g s"] show ?case by (simp add: funpow_swap1)
qed

lemma onAddLayer_guarded:
  "adding s \<Longrightarrow> map_set s \<Longrightarrow> onAddLayer k l s = Done (layer_on l s)"
  by (simp add: onAddLayer_def Let_def)

lemma onRemoveLayer_guarded: "removing s \<Longrightarrow> onRemoveLayer k l s = Done s"
  by (simp add: onRemoveLayer_def)

lemma onAdd_guarded: "adding s \<Longrightarrow> onAdd k rs i s = Done s"
  by (simp add: onAdd_def)

lemma onRemove_guarded: "removing s \<Longrightarrow> onRemove k r s = Done s"
  by (simp add: onRemove_def)

lemma notify_add_guarded:
  assumes "adding s" "map_set s"
  shows "times c (run (Suc n) (OnAddLayer l)) s = Done ((layer_on l ^^ c) s) \<and>
         (adding ((layer_on l ^^ c) s) \<and> map_set ((layer_on l ^^ c) s))"
  by (rule times_funpow [where P = "\<lambda>s. adding s \<and> map_set s"])
     (simp_all add: assms handle_def onAddLayer_guarded)

lemma notify_remove_guarded:
  "removing s \<Longrightarrow> times c (run (Suc n) (OnRemoveLayer l)) s = Done s"
  by (rule times_noop) (simp add: handle_def onRemoveLayer_guarded)

lemma col_push_guarded:
  "adding s \<Longrightarrow> map_set s \<Longrightarrow> col_push (run (Suc n)) l s = Done (pushed l s)"
  using notify_add_guarded [of "s\<lparr>layers := layers s @ [l], trace := trace s @ [Target_inserted l]\<rparr>" "col_add s" n l]
  by (simp add: col_push_def pushed_def Let_def)

lemma col_insertAt_guarded:
  "adding s \<Longrightarrow> map_set s \<Longrightarrow> col_insertAt (run (Suc n)) i l s = Done (inserted_at i l s)"
  using notify_add_guarded [of "s\<lparr>layers := insert_all i [l] (layers s), trace := trace s @ [Target_inserted l]\<rparr>" "col_add s" n l]
  by (simp add: col_insertAt_def inserted_at_def Let_def)


lemma funpow_layer_on_fields [simp]:
  "map_set ((layer_on l ^^ c) s) = map_set s" "store_data ((layer_on l ^^ c) s) = store_data s"
  "adding ((layer_on l ^^ c) s) = adding s" "removing ((layer_on l ^^ c) s) = removing s"
  "addRecords ((layer_on l ^^ c) s) = addRecords s"
  "recs ((layer_on l ^^ c) s) = recs s" "layers ((layer_on l ^^ c) s) = layers s"
  "col_add ((layer_on l ^^ c) s) = col_add s" "col_remove ((layer_on l ^^ c) s) = col_remove s"
  "keep_duplicates ((layer_on l ^^ c) s) = keep_duplicates s"
  "trace ((layer_on l ^^ c) s) = trace s"
  by (induction c) simp_all

lemma listeners_funpow_layer_on:
  "listeners (lyrs ((layer_on l ^^ c) s) l') =
     (if l' = l then (ol_on (keep_duplicates s) ^^ c) (listeners (lyrs s l))
      else listeners (lyrs s l'))"
  by (induction c) auto

lemma pushed_fields [simp]:
  "map_set (pushed l s) = map_set s" "store_data (pushed l s) = store_data s"
  "adding (pushed l s) = adding s" "removing (pushed l s) = removing s"
  "addRecords (pushed l s) = addRecords s" "recs (pushed l s) = recs s"
  "layers (pushed l s) = layers s @ [l]" "col_add (pushed l s) = col_add s"
  "col_remove (pushed l s) = col_remove s"
  "keep_duplicates (pushed l s) = keep_duplicates s"
  "trace (pushed l s) = trace s @ [Target_inserted l]"
  by (simp_all add: pushed_def)

lemma inserted_at_fields [simp]:
  "map_set (inserted_at i l s) = map_set s" "store_data (inserted_at i l s) = store_data s"
  "adding (inserted_at i l s) = adding s" "removing (inserted_at i l s) = removing s"
  "addRecords (inserted_at i l s) = addRecords s" "recs (inserted_at i l s) = recs s"
  "layers (inserted_at i l s) = insert_all i [l] (layers s)"
  "col_add (inserted_at i l s) = col_add s" "col_remove (inserted_at i l s) = col_remove s"
  "keep_duplicates (inserted_at i l s) = keep_duplicates s"
  "trace (inserted_at i l s) = trace s @ [Target_inserted l]"
  by (simp_all add: inserted_at_def)

lemma listeners_pushed:
  "listeners (lyrs (pushed l s) l') =
     (if l' = l then (ol_on (keep_duplicates s) ^^ col_add s) (listeners (lyrs s l))
      else listeners (lyrs s l'))"
  by (simp add: pushed_def listeners_funpow_layer_on)

lemma listeners_inserted_at:
  "listeners (lyrs (inserted_at i l s) l') =
     (if l' = l then (ol_on (keep_duplicates s) ^^ col_add s) (listeners (lyrs s l))
      else listeners (lyrs s l'))"
  by (simp add: inserted_at_def listeners_funpow_layer_on)

lemma added_one_fields [simp]:
  "map_set (added_one i r s) = map_set s" "store_data (added_one i r s) = store_data s"
  "adding (added_one i r s) = adding s" "removing (added_one i r s) = removing s"
  "addRecords (added_one i r s) = addRecords s" "recs (added_one i r s) = recs s"
  "col_add (added_one i r s) = col_add s" "col_remove (added_one i r s) = col_remove s"
  "keep_duplicates (added_one i r s) = keep_duplicates s"
  by (simp_all add: added_one_def Let_def)

lemma layers_added_one [simp]:
  "layers (added_one i r s) =
     (if i = 0 then layers s @ [olLayer (recs s r)]
      else insert_all i [olLayer (recs s r)] (layers s))"
  "trace (added_one i r s) = trace s @ [Target_inserted (olLayer (recs s r))]"
  by (simp_all add: added_one_def Let_def)

lemma fold_added_one_fields [simp]:
  "map_set (fold (added_one i) rs s) = map_set s"
  "store_data (fold (added_one i) rs s) = store_data s"
  "adding (fold (added_one i) rs s) = adding s"
  "removing (fold (added_one i) rs s) = removing s"
  "addRecords (fold (added_one i) rs s) = addRecords s"
  "recs (fold (added_one i) rs s) = recs s"
  "col_add (fold (added_one i) rs s) = col_add s"
  "keep_duplicates (fold (added_one i) rs s) = keep_duplicates s"
  by (induction rs arbitrary: s) simp_all

lemma layers_fold_added_one:
  "layers (fold (added_one i) rs s) =
     (if i = 0 then layers s @ map (\<lambda>r. olLayer (recs s r)) rs
      else fold (\<lambda>r. insert_all i [olLayer (recs s r)]) rs (layers s))"
proof (induction rs arbitrary: s)
  case Nil
  then show ?case by simp
next
  case (Cons r rs)
  show ?case
    by (simp add: Cons.IH)
qed

lemma onAdd_result:
  assumes "\<not> adding s" "map_set s"
  shows "onAdd (run (Suc n)) records index s =
           Done ((fold (added_one index) records (s\<lparr>adding := True\<rparr>))\<lparr>adding := False\<rparr>)"
proof -
  let ?body = "\<lambda>r st.
                   (let layer = olLayer (recs st r);
                        st1 = layer_on layer st
                    in if \<not> map_set st1 then Threw TypeError st1
                       else if index = 0 then col_push (run (Suc n)) layer st1
                       else col_insertAt (run (Suc n)) index layer st1)"
  have step: "?body r st = Done (added_one index r st) \<and>
              (adding (added_one index r st) \<and> map_set (added_one index r st))"
    if "adding st \<and> map_set st" for r st
    using that by (simp add: Let_def added_one_def col_push_guarded col_insertAt_guarded)
  have "each ?body records (s\<lparr>adding := True\<rparr>) =
          Done (fold (added_one index) records (s\<lparr>adding := True\<rparr>))"
    using each_fold [where P = "\<lambda>st. adding st \<and> map_set st" and f = ?body
                       and g = "added_one index" and s = "s\<lparr>adding := True\<rparr>" and xs = records]
          step assms
    by simp
  with assms show ?thesis
    by (simp add: onAdd_def)
qed

subsection \<open>Entries added to the store\<close>

lemma insert_all_single:
  "0 < i \<Longrightarrow> i \<le> int (length xs) \<Longrightarrow>
   insert_all i [x] xs = take (nat i) xs @ x # drop (nat i) xs"
proof -
  assume "0 < i" "i \<le> int (length xs)"
  then have "nat i \<le> length xs" by linarith
  with \<open>0 < i\<close> show ?thesis
    by (simp add: insert_all_def splice_start_def Let_def min_def)
qed

text \<open>
  Claim C3, amended. With \<open>_adding\<close> clear and the store bound, \<open>onAdd\<close> at index 0
  pushes the layer of each added record, and \<open>push\<close> appends: the layers come after all
  layers the collection held, in the order of the records (a layer is first only when the
  collection was empty). At any other index each layer is spliced in at that index; for one
  record and an index within the collection the layer stands at that index.
\<close>

theorem add_at_front_appends:
  "\<not> adding s \<and> map_set s \<longrightarrow>
     map_option layers (final (onAdd (run (Suc n)) records index s)) =
       Some (if index = 0 then layers s @ map (\<lambda>r. olLayer (recs s r)) records
             else fold (\<lambda>r. insert_all index [olLayer (recs s r)]) records (layers s)) \<and>
     (0 < index \<and> index \<le> int (length (layers s)) \<longrightarrow>
        map_option layers (final (onAdd (run (Suc n)) [r] index s)) =
          Some (take (nat index) (layers s) @ olLayer (recs s r) # drop (nat index) (layers s)))"
  by (simp add: onAdd_result layers_fold_added_one insert_all_single)

text \<open>
  As the claim was stated it fails: a record added at index 0 to the store bound to the
  layers 1 and 2 has its layer 3 pushed behind them, not in front.
\<close>

theorem add_at_front_counterexample:
  "\<not> adding example_bound \<and>
   map_option layers (final (onAdd (run (Suc 0)) [3] 0 example_bound)) = Some [1, 2, 3] \<and>
   map_option hd (map_option layers (final (onAdd (run (Suc 0)) [3] 0 example_bound))) \<noteq> Some 3"
proof -
  have a: "\<not> adding example_bound" "map_set example_bound"
    by (simp_all add: example_bound_def)
  have "final (onAdd (run (Suc 0)) [3] 0 example_bound) =
          Some ((fold (added_one 0) [3] (example_bound\<lparr>adding := True\<rparr>))\<lparr>adding := False\<rparr>)"
    by (simp add: onAdd_result [OF a])
  moreover have "layers ((fold (added_one 0) [3] (example_bound\<lparr>adding := True\<rparr>))\<lparr>adding := False\<rparr>)
                   = [1, 2, 3]"
    by (simp add: example_bound_def)
  ultimately show ?thesis using a by simp
qed

theorem add_at_front_witness:
  "\<not> adding example_bound \<and> map_set example_bound \<and>
   (0::int) < 1 \<and> 1 \<le> int (length (layers example_bound)) \<and>
   map_option layers (final (onAdd (run (Suc 0)) [3, 4] 0 example_bound)) = Some [1, 2, 3, 4] \<and>
   map_option layers (final (onAdd (run (Suc 0)) [3] 1 example_bound)) = Some [1, 3, 2]"
proof -
  have a: "\<not> adding example_bound" "map_set example_bound" "layers example_bound = [1, 2]"
    "recs example_bound = (\<lambda>r. \<lparr>olLayer = r, title = Str ''roads'', modified_title = None\<rparr>)"
    by (simp_all add: example_bound_def)
  from add_at_front_appends [where s = example_bound and n = 0 and records = "[3, 4]"
         and index = 0 and r = 3]
       add_at_front_appends [where s = example_bound and n = 0 and records = "[3]"
         and index = 1 and r = 3]
       a
  show ?thesis by simp
qed

lemma store_insert_one:
  assumes "\<not> adding s" "map_set s" "on_add s"
  shows "store_insert (run (Suc (Suc n))) index [r] s =
           Done ((added_one index r
                   (s\<lparr>store_data := insert_all index [r] (store_data s),
                      trace := trace s @ [Model_inserted index [r]], adding := True\<rparr>))
                 \<lparr>adding := False\<rparr>)"
  using assms
  by (simp add: store_insert_def Let_def handle_def onAdd_result)

subsection \<open>The listener of an added entry's layer\<close>

lemma findBy_exists: "\<exists>x\<in>set xs. p x \<Longrightarrow> findBy p xs > -1"
proof (induction xs)
  case Nil
  then show ?case by simp
next
  case (Cons x xs)
  show ?case
  proof (cases "p x")
    case True
    then show ?thesis by simp
  next
    case False
    with Cons.prems have "\<exists>y\<in>set xs. p y" by simp
    then have "findBy p xs > -1" by (rule Cons.IH)
    with False show ?thesis by (simp add: Let_def)
  qed
qed

lemma getByLayer_unique:
  assumes "r \<in> set (store_data s)" "olLayer (recs s r) = l"
    and "\<forall>r'\<in>set (store_data s). olLayer (recs s r') = l \<longrightarrow> r' = r"
  shows "getByLayer l s = Some r"
proof -
  let ?p = "\<lambda>r. olLayer (recs s r) = l"
  from assms(1,2) have gt: "findBy ?p (store_data s) > -1"
    by (intro findBy_exists) auto
  from findBy_found [OF gt]
  have "store_data s ! nat (findBy ?p (store_data s)) \<in> set (store_data s)"
    and "?p (store_data s ! nat (findBy ?p (store_data s)))"
    by simp_all
  with assms(3) have "store_data s ! nat (findBy ?p (store_data s)) = r"
    by blast
  with gt show ?thesis
    by (simp add: getByLayer_def getAt_def Let_def)
qed

lemma set_insert_all: "set (insert_all i ys xs) = set xs \<union> set ys"
proof -
  have "set (take p xs) \<union> set (drop p xs) = set xs" for p
    by (metis append_take_drop_id set_append)
  then show ?thesis
    by (auto simp: insert_all_def Let_def)
qed

lemma onChangeLayer_other_key:
  assumes "getByLayer l s = Some r" "modified_title (recs s r) = None" "key \<noteq> ''title''"
  shows "onChangeLayer (run (Suc n)) l key s = Done (update_fired r s)"
  using assms
  by (simp add: onChangeLayer_getByLayer notify_update_def handle_def onStoreUpdate_def
        update_fired_def)

lemma update_fired_keeps [simp]:
  "recs (update_fired r s) = recs s" "store_data (update_fired r s) = store_data s"
  "trace (update_fired r s) = trace s @ [Update_fired r EDIT]"
  by (simp_all add: update_fired_def)

lemma trace_funpow_update_fired:
  "trace ((update_fired r ^^ c) s) = trace s @ replicate c (Update_fired r EDIT)"
  by (induction c) (simp_all add: replicate_append_same)

lemma notify_change_other_key:
  assumes "getByLayer l s = Some r" "modified_title (recs s r) = None" "key \<noteq> ''title''"
  shows "times c (run (Suc (Suc n)) (OnChangeLayer l key)) s = Done ((update_fired r ^^ c) s)"
proof -
  have "times c (run (Suc (Suc n)) (OnChangeLayer l key)) s = Done ((update_fired r ^^ c) s) \<and>
        (getByLayer l ((update_fired r ^^ c) s) = Some r \<and>
         modified_title (recs ((update_fired r ^^ c) s) r) = None)"
  proof (rule times_funpow
      [where P = "\<lambda>s. getByLayer l s = Some r \<and> modified_title (recs s r) = None"])
    fix st
    assume p: "getByLayer l st = Some r \<and> modified_title (recs st r) = None"
    then have "run (Suc (Suc n)) (OnChangeLayer l key) st = Done (update_fired r st)"
      using onChangeLayer_other_key [of l st r key n] assms(3) by (simp add: handle_def)
    moreover from p have "getByLayer l (update_fired r st) = Some r"
      by (simp add: getByLayer_cong [of "update_fired r st" st])
    ultimately show "run (Suc (Suc n)) (OnChangeLayer l key) st = Done (update_fired r st) \<and>
        (getByLayer l (update_fired r st) = Some r \<and>
         modified_title (recs (update_fired r st) r) = None)"
      using p by simp
  next
    show "getByLayer l s = Some r \<and> modified_title (recs s r) = None"
      using assms by simp
  qed
  then show ?thesis by simp
qed

lemma layer_set_other_key_trace:
  assumes "getByLayer l s = Some r" "modified_title (recs s r) = None" "key \<noteq> ''title''"
  shows "map_option trace (final (layer_set (run (Suc (Suc n))) l key v s)) =
           Some (trace s @ Target_prop_set l key v #
                   replicate (listeners (lyrs s l)) (Update_fired r EDIT))"
proof -
  let ?s1 = "s\<lparr>lyrs := (lyrs s)(l := (lyrs s l)\<lparr>props := (props (lyrs s l))(key := v)\<rparr>),
               trace := trace s @ [Target_prop_set l key v]\<rparr>"
  from assms have "getByLayer l ?s1 = Some r" "modified_title (recs ?s1 r) = None"
    by (simp_all add: getByLayer_cong [of ?s1 s])
  from notify_change_other_key [OF this assms(3), of "listeners (lyrs s l)" n]
  show ?thesis
    by (simp add: layer_set_def Let_def trace_funpow_update_fired)
qed

lemma store_insert_one_listeners:
  assumes "\<not> adding s" "map_set s" "on_add s" "col_add s = Suc 0"
    and "listeners (lyrs s (olLayer (recs s r))) = 0"
  shows "\<exists>s'. store_insert (run (Suc (Suc n))) index [r] s = Done s' \<and>
              listeners (lyrs s' (olLayer (recs s r))) = (if keep_duplicates s then 2 else 1) \<and>
              recs s' = recs s \<and> store_data s' = insert_all index [r] (store_data s) \<and>
              trace s' = trace s @ [Model_inserted index [r], Target_inserted (olLayer (recs s r))]"
  using assms
  by (simp add: store_insert_one added_one_def Let_def listeners_pushed
        listeners_inserted_at ol_on_def)

lemma added_entry_then_change:
  assumes "\<not> adding s" "map_set s" "on_add s" "col_add s = Suc 0"
    and "olLayer (recs s r) = l" "listeners (lyrs s l) = 0"
    and "\<forall>r'\<in>set (store_data s). olLayer (recs s r') \<noteq> l"
    and "modified_title (recs s r) = None" "key \<noteq> ''title''"
  shows "map_option (listeners_of l) (final (store_insert (run (Suc (Suc n))) index [r] s)) =
           Some (if keep_duplicates s then 2 else 1) \<and>
         map_option trace
           (final (then_do (store_insert (run (Suc (Suc n))) index [r] s)
                     (layer_set (run (Suc (Suc n))) l key v))) =
           Some (trace s @ [Model_inserted index [r], Target_inserted l, Target_prop_set l key v] @
                 replicate (if keep_duplicates s then 2 else 1) (Update_fired r EDIT))"
proof -
  from store_insert_one_listeners [of s r n index] assms
  obtain s' where s': "store_insert (run (Suc (Suc n))) index [r] s = Done s'"
      "listeners (lyrs s' l) = (if keep_duplicates s then 2 else 1)"
      "recs s' = recs s" "store_data s' = insert_all index [r] (store_data s)"
      "trace s' = trace s @ [Model_inserted index [r], Target_inserted l]"
    by auto
  have "getByLayer l s' = Some r"
    by (rule getByLayer_unique) (use assms s' in \<open>auto simp: set_insert_all\<close>)
  moreover have "modified_title (recs s' r) = None"
    using assms s' by simp
  ultimately have "map_option trace (final (layer_set (run (Suc (Suc n))) l key v s')) =
           Some (trace s' @ Target_prop_set l key v #
                   replicate (listeners (lyrs s' l)) (Update_fired r EDIT))"
    using assms(9) by (rule layer_set_other_key_trace)
  with s' show ?thesis
    by (simp add: listeners_of_def)
qed

text \<open>
  Claim C10, amended. A record inserted in the bound store with \<open>_adding\<close> clear, for a
  layer without listener and without record so far: \<open>onAdd\<close> calls \<open>layer.on\<close>, and
  \<open>onAddLayer\<close>, reached by the notification of the insertion in the collection, calls
  it again before it tests \<open>_adding\<close>. On an observable that records a repeated
  registration the layer ends with two registrations and a later property change runs
  \<open>onChangeLayer\<close> twice; on one that ignores it, with one registration and one run.
\<close>

theorem added_entry_listener_count:
  "\<not> adding s \<and> map_set s \<and> on_add s \<and> col_add s = Suc 0 \<and>
   olLayer (recs s r) = l \<and> listeners (lyrs s l) = 0 \<and>
   (\<forall>r'\<in>set (store_data s). olLayer (recs s r') \<noteq> l) \<and>
   modified_title (recs s r) = None \<and> key \<noteq> ''title'' \<longrightarrow>
     map_option (listeners_of l) (final (store_insert (run (Suc (Suc n))) index [r] s)) =
       Some (if keep_duplicates s then 2 else 1) \<and>
     map_option trace
       (final (then_do (store_insert (run (Suc (Suc n))) index [r] s)
                 (layer_set (run (Suc (Suc n))) l key v))) =
       Some (trace s @ [Model_inserted index [r], Target_inserted l, Target_prop_set l key v] @
             replicate (if keep_duplicates s then 2 else 1) (Update_fired r EDIT))"
  using added_entry_then_change [of s r l key n index v] by blast

lemma example_bound_fresh_entry:
  "\<not> adding example_bound" "map_set example_bound" "on_add example_bound"
  "col_add example_bound = Suc 0" "olLayer (recs example_bound 3) = 3"
  "listeners (lyrs example_bound 3) = 0"
  "\<forall>r'\<in>set (store_data example_bound). olLayer (recs example_bound r') \<noteq> 3"
  "modified_title (recs example_bound 3) = None" "trace example_bound = []"
  "\<not> keep_duplicates example_bound"
  by (simp_all add: example_bound_def)

text \<open>
  As the claim was stated it fails where the observable ignores a repeated registration:
  one registration, and one \<open>update\<close> fired by the later property change.
\<close>

theorem added_entry_listener_counterexample:
  "map_option (listeners_of 3)
     (final (store_insert (run (Suc (Suc 0))) 2 [3] example_bound)) = Some 1 \<and>
   map_option trace
     (final (then_do (store_insert (run (Suc (Suc 0))) 2 [3] example_bound)
               (layer_set (run (Suc (Suc 0))) 3 ''opacity'' (Str ''0.5'')))) =
     Some [Model_inserted 2 [3], Target_inserted 3,
           Target_prop_set 3 ''opacity'' (Str ''0.5''), Update_fired 3 EDIT]"
  using added_entry_then_change [of example_bound 3 3 "''opacity''" 0 2 "Str ''0.5''"]
    example_bound_fresh_entry
  by simp

lemma example_keeping_fresh_entry:
  "\<not> adding example_keeping" "map_set example_keeping" "on_add example_keeping"
  "col_add example_keeping = Suc 0" "olLayer (recs example_keeping 3) = 3"
  "listeners (lyrs example_keeping 3) = 0"
  "\<forall>r'\<in>set (store_data example_keeping). olLayer (recs example_keeping r') \<noteq> 3"
  "modified_title (recs example_keeping 3) = None" "trace example_keeping = []"
  "keep_duplicates example_keeping" "store_data example_keeping = [1, 2]"
  "olLayer (recs example_keeping 1) = 1" "olLayer (recs example_keeping 2) = 2"
  by (simp_all add: example_keeping_def example_bound_def)

theorem added_entry_listener_witness:
  "\<not> adding example_keeping \<and> map_set example_keeping \<and> on_add example_keeping \<and>
   col_add example_keeping = Suc 0 \<and> olLayer (recs example_keeping 3) = 3 \<and>
   listeners (lyrs example_keeping 3) = 0 \<and>
   store_data example_keeping = [1, 2] \<and>
   olLayer (recs example_keeping 1) = 1 \<and> olLayer (recs example_keeping 2) = 2 \<and>
   modified_title (recs example_keeping 3) = None \<and> ''opacity'' \<noteq> ''title'' \<and>
   map_option (listeners_of 3)
     (final (store_insert (run (Suc (Suc 0))) 2 [3] example_keeping)) = Some 2 \<and>
   map_option trace
     (final (then_do (store_insert (run (Suc (Suc 0))) 2 [3] example_keeping)
               (layer_set (run (Suc (Suc 0))) 3 ''opacity'' (Str ''0.5'')))) =
     Some [Model_inserted 2 [3], Target_inserted 3,
           Target_prop_set 3 ''opacity'' (Str ''0.5''), Update_fired 3 EDIT, Update_fired 3 EDIT]"
  using added_entry_listener_count
          [where s = example_keeping and r = 3 and l = 3 and key = "''opacity''" and n = 0
             and index = 2 and v = "Str ''0.5''"]
    example_keeping_fresh_entry
  by (simp add: numeral_2_eq_2)

subsection \<open>A replaced entry\<close>

lemma then_do_Done [simp]: "then_do x Done = x"
  by (cases x) simp_all

lemma onRemoveLayer_result:
  assumes "\<not> removing s"
  shows "onRemoveLayer (run (Suc n)) l s =
           Done (case getByLayer l s of
                   None \<Rightarrow> s
                 | Some r' \<Rightarrow> (layer_un l s)\<lparr>store_data := remove1 r' (store_data s),
                                              trace := trace s @ [Model_removed r']\<rparr>)"
proof (cases "getByLayer l s")
  case None
  with assms show ?thesis by (simp add: onRemoveLayer_def)
next
  case (Some r')
  then have "r' \<in> set (store_data s)" by (simp add: getByLayer_Some)
  with assms Some show ?thesis
    by (simp add: onRemoveLayer_def Let_def store_remove_def handle_def onRemove_guarded)
       (simp add: layer_un_def)
qed

lemma onReplace_result:
  assumes "map_set s" "\<not> removing s" "col_remove s = Suc 0" "olLayer (recs s old) = l"
    and "l \<in> set (layers s)"
  shows "onReplace (run (Suc (Suc n))) old s =
           Done (case getByLayer l s of
                   None \<Rightarrow> s\<lparr>layers := remove1 l (layers s),
                               trace := trace s @ [Target_removed l]\<rparr>
                 | Some r' \<Rightarrow>
                     (layer_un l s)\<lparr>layers := remove1 l (layers s),
                                    store_data := remove1 r' (store_data s),
                                    trace := trace s @ [Target_removed l, Model_removed r']\<rparr>)"
proof -
  let ?s1 = "s\<lparr>layers := remove1 l (layers s), trace := trace s @ [Target_removed l]\<rparr>"
  have g: "getByLayer l ?s1 = getByLayer l s"
    by (simp add: getByLayer_cong [of ?s1 s])
  have nr: "\<not> removing ?s1" using assms by simp
  show ?thesis
  proof (cases "getByLayer l s")
    case None
    with g have "onRemoveLayer (run (Suc n)) l ?s1 = Done ?s1"
      using onRemoveLayer_result [OF nr, of n l] by simp
    with assms None show ?thesis
      by (simp add: onReplace_def removeMapLayer_def col_remove_elem_def Let_def handle_def)
  next
    case (Some r')
    with g have "onRemoveLayer (run (Suc n)) l ?s1 =
        Done ((layer_un l ?s1)\<lparr>store_data := remove1 r' (store_data s),
                                trace := trace ?s1 @ [Model_removed r']\<rparr>)"
      using onRemoveLayer_result [OF nr, of n l] by simp
    with assms Some show ?thesis
      by (simp add: onReplace_def removeMapLayer_def col_remove_elem_def Let_def handle_def)
         (simp add: layer_un_def)
  qed
qed

subsection \<open>Unbinding and destroying\<close>

lemma unbindMap_returns: "\<exists>s'. unbindMap s = Done s' \<and> \<not> map_set s' \<and> lyrs s' = lyrs s"
  by (simp add: unbindMap_def Let_def)

lemma unbindMap_twice: "then_do (unbindMap s) unbindMap = unbindMap s"
  by (simp add: unbindMap_def Let_def)

text \<open>
  Claim C8, at its failing input. Unbinding never throws and a second unbinding changes
  nothing more (the two lemmas above), but \<open>unbindMap\<close> does not undo the
  \<open>layer.on('propertychange', ...)\<close> of \<open>bindMap\<close>: after binding the store to the map
  with the layers 1 and 2 and unbinding it, layer 1 still has its listener, and a title
  set on layer 1 still reaches record 1.
\<close>

theorem unbind_keeps_layer_listeners:
  "map_option (listeners_of 1)
     (final (then_do (bindMap (run (Suc 0)) example_unbound) unbindMap)) = Some 1 \<and>
   map_option (title_of 1)
     (final (then_do (bindMap (run (Suc 0)) example_unbound) unbindMap)) = Some (Str ''roads'') \<and>
   map_option (title_of 1)
     (final (then_do (then_do (bindMap (run (Suc 0)) example_unbound) unbindMap)
               (layer_set (run (Suc (Suc 0))) 1 ''title'' (Str ''rivers'')))) =
     Some (Str ''rivers'')"
  by code_simp

text \<open>
  Claim C4, at its failing input. \<open>destroy\<close> calls \<open>this.unbind()\<close>, a member that
  neither this class nor \<open>Ext.data.Store\<close> defines: it throws before anything is unbound
  or released, in every state. And \<open>unbindMap\<close>, had it been called, leaves the listener
  on each layer.
\<close>

theorem destroy_calls_undefined_unbind:
  "destroy None parent_destroy s = Threw TypeError s \<and>
   map_option (listeners_of 1) (thrown (destroy None Done example_bound)) = Some 1 \<and>
   map_option on_add (thrown (destroy None Done example_bound)) = Some True \<and>
   map_option (listeners_of 1) (final (destroy (Some unbindMap) Done example_bound)) = Some 1"
proof -
  have "destroy None parent_destroy s = Threw TypeError s"
    by (simp add: destroy_def)
  moreover have
    "map_option (listeners_of 1) (thrown (destroy None Done example_bound)) = Some 1 \<and>
     map_option on_add (thrown (destroy None Done example_bound)) = Some True \<and>
     map_option (listeners_of 1) (final (destroy (Some unbindMap) Done example_bound)) = Some 1"
    by code_simp
  ultimately show ?thesis by simp
qed

subsection \<open>A load of the store\<close>

lemma popped_fields [simp]:
  "map_set (popped s) = map_set s" "store_data (popped s) = store_data s"
  "adding (popped s) = adding s" "removing (popped s) = removing s"
  "addRecords (popped s) = addRecords s" "recs (popped s) = recs s"
  "lyrs (popped s) = lyrs s" "col_add (popped s) = col_add s"
  "col_remove (popped s) = col_remove s" "keep_duplicates (popped s) = keep_duplicates s"
  "layers (popped s) = butlast (layers s)"
  by (simp_all add: popped_def)


lemma fold_popped_fields [simp]:
  "map_set (fold (\<lambda>_. popped) xs s) = map_set s"
  "store_data (fold (\<lambda>_. popped) xs s) = store_data s"
  "adding (fold (\<lambda>_. popped) xs s) = adding s"
  "removing (fold (\<lambda>_. popped) xs s) = removing s"
  "addRecords (fold (\<lambda>_. popped) xs s) = addRecords s"
  "recs (fold (\<lambda>_. popped) xs s) = recs s"
  "lyrs (fold (\<lambda>_. popped) xs s) = lyrs s"
  "col_add (fold (\<lambda>_. popped) xs s) = col_add s"
  "keep_duplicates (fold (\<lambda>_. popped) xs s) = keep_duplicates s"
  by (induction xs arbitrary: s) simp_all




lemma fold_pushed_fields [simp]:
  "map_set (fold pushed xs s) = map_set s"
  "store_data (fold pushed xs s) = store_data s"
  "adding (fold pushed xs s) = adding s"
  "removing (fold pushed xs s) = removing s"
  "addRecords (fold pushed xs s) = addRecords s"
  "recs (fold pushed xs s) = recs s"
  "col_add (fold pushed xs s) = col_add s"
  "keep_duplicates (fold pushed xs s) = keep_duplicates s"
  "layers (fold pushed xs s) = layers s @ xs"
  "trace (fold pushed xs s) = trace s @ map Target_inserted xs"
  by (induction xs arbitrary: s) simp_all


lemma fold_layer_un_fields [simp]:
  "map_set (fold layer_un xs s) = map_set s"
  "store_data (fold layer_un xs s) = store_data s"
  "adding (fold layer_un xs s) = adding s"
  "removing (fold layer_un xs s) = removing s"
  "addRecords (fold layer_un xs s) = addRecords s"
  "recs (fold layer_un xs s) = recs s"
  "layers (fold layer_un xs s) = layers s"
  "col_add (fold layer_un xs s) = col_add s"
  "keep_duplicates (fold layer_un xs s) = keep_duplicates s"
  "trace (fold layer_un xs s) = trace s"
  by (induction xs arbitrary: s) simp_all

lemma fold_layer_on_fields [simp]:
  "map_set (fold layer_on xs s) = map_set s"
  "store_data (fold layer_on xs s) = store_data s"
  "adding (fold layer_on xs s) = adding s"
  "removing (fold layer_on xs s) = removing s"
  "addRecords (fold layer_on xs s) = addRecords s"
  "recs (fold layer_on xs s) = recs s"
  "layers (fold layer_on xs s) = layers s"
  "col_add (fold layer_on xs s) = col_add s"
  "keep_duplicates (fold layer_on xs s) = keep_duplicates s"
  "trace (fold layer_on xs s) = trace s"
  by (induction xs arbitrary: s) simp_all


lemma ol_on_pos: "0 < ol_on keep m" and ol_on_ge: "m \<le> ol_on keep m"
  by (simp_all add: ol_on_def)

lemma funpow_ol_on_ge: "m \<le> (ol_on keep ^^ c) m"
  by (induction c) (simp_all add: le_trans [OF _ ol_on_ge])

lemma listeners_fold_layer_on_other:
  "l \<notin> set xs \<Longrightarrow> listeners (lyrs (fold layer_on xs s) l) = listeners (lyrs s l)"
  by (induction xs arbitrary: s) simp_all

lemma listeners_fold_layer_on_ge:
  "listeners (lyrs s l) \<le> listeners (lyrs (fold layer_on xs s) l)"
proof (induction xs arbitrary: s)
  case Nil
  then show ?case by simp
next
  case (Cons x xs)
  have "listeners (lyrs s l) \<le> listeners (lyrs (layer_on x s) l)"
    by (simp add: ol_on_ge)
  also have "\<dots> \<le> listeners (lyrs (fold layer_on xs (layer_on x s)) l)"
    by (rule Cons.IH)
  finally show ?case by simp
qed

lemma listeners_fold_layer_on_pos:
  "l \<in> set xs \<Longrightarrow> 0 < listeners (lyrs (fold layer_on xs s) l)"
proof (induction xs arbitrary: s)
  case Nil
  then show ?case by simp
next
  case (Cons x xs)
  show ?case
  proof (cases "l = x")
    case True
    have "0 < listeners (lyrs (layer_on x s) l)"
      using True by (simp add: ol_on_pos)
    also have "\<dots> \<le> listeners (lyrs (fold layer_on xs (layer_on x s)) l)"
      by (rule listeners_fold_layer_on_ge)
    finally show ?thesis by simp
  next
    case False
    with Cons.prems have "l \<in> set xs" by simp
    then show ?thesis by (simp add: Cons.IH)
  qed
qed

lemma listeners_fold_pushed_other:
  "l \<notin> set xs \<Longrightarrow> listeners (lyrs (fold pushed xs s) l) = listeners (lyrs s l)"
  by (induction xs arbitrary: s) (simp_all add: listeners_pushed)

lemma listeners_fold_pushed_ge:
  "listeners (lyrs s l) \<le> listeners (lyrs (fold pushed xs s) l)"
proof (induction xs arbitrary: s)
  case Nil
  then show ?case by simp
next
  case (Cons x xs)
  have "listeners (lyrs s l) \<le> listeners (lyrs (pushed x s) l)"
    by (simp add: listeners_pushed funpow_ol_on_ge)
  also have "\<dots> \<le> listeners (lyrs (fold pushed xs (pushed x s)) l)"
    by (rule Cons.IH)
  finally show ?case by simp
qed


subsection \<open>No guard flag is left behind by a handler that returns\<close>


lemma no_guard_left_refl [simp]: "no_guard_left s s"
  by (simp add: no_guard_left_def)

lemma no_guard_left_same:
  "adding s' = adding s \<Longrightarrow> removing s' = removing s \<Longrightarrow> no_guard_left s s'"
  by (simp add: no_guard_left_def)




























subsection \<open>Changes that are propagated once\<close>

lemma getByLayer_same_layers:
  "store_data s' = store_data s \<Longrightarrow> (\<And>r. olLayer (recs s' r) = olLayer (recs s r)) \<Longrightarrow>
   getByLayer layer s' = getByLayer layer s"
  by (simp add: getByLayer_def getAt_def Let_def)

lemma pushed_layer_imported_once:
  assumes "map_set s" "\<not> adding s" "col_add s = Suc 0"
    and "reader s [l] = Some result" "result_records result = [r]"
  shows "map_option trace (final (col_push (run (Suc (Suc n))) l s)) =
           Some (trace s @ [Target_inserted l,
                            Model_inserted (indexOf l (layers s @ [l])) [r]]) \<and>
         map_option store_data (final (col_push (run (Suc (Suc n))) l s)) =
           Some (insert_all (indexOf l (layers s @ [l])) [r] (store_data s)) \<and>
         map_option layers (final (col_push (run (Suc (Suc n))) l s)) = Some (layers s @ [l]) \<and>
         map_option adding (final (col_push (run (Suc (Suc n))) l s)) = Some False"
  using assms
  by (simp add: col_push_def Let_def handle_def onAddLayer_def store_insert_def onAdd_guarded)

lemma inserted_entry_pushed_once:
  assumes "map_set s" "\<not> adding s" "on_add s"
  shows "map_option trace (final (store_insert (run (Suc (Suc n))) index [r] s)) =
           Some (trace s @ [Model_inserted index [r], Target_inserted (olLayer (recs s r))]) \<and>
         map_option adding (final (store_insert (run (Suc (Suc n))) index [r] s)) = Some False"
  using assms
  by (simp add: store_insert_one)

lemma col_remove_elem_result:
  assumes "\<not> removing s" "col_remove s = Suc 0" "l \<in> set (layers s)"
  shows "col_remove_elem (run (Suc (Suc n))) l s =
           Done (case getByLayer l s of
                   None \<Rightarrow> s\<lparr>layers := remove1 l (layers s),
                               trace := trace s @ [Target_removed l]\<rparr>
                 | Some r' \<Rightarrow>
                     (layer_un l s)\<lparr>layers := remove1 l (layers s),
                                    store_data := remove1 r' (store_data s),
                                    trace := trace s @ [Target_removed l, Model_removed r']\<rparr>)"
proof -
  let ?s1 = "s\<lparr>layers := remove1 l (layers s), trace := trace s @ [Target_removed l]\<rparr>"
  have g: "getByLayer l ?s1 = getByLayer l s"
    by (simp add: getByLayer_cong [of ?s1 s])
  have nr: "\<not> removing ?s1" using assms by simp
  show ?thesis
  proof (cases "getByLayer l s")
    case None
    with g have "onRemoveLayer (run (Suc n)) l ?s1 = Done ?s1"
      using onRemoveLayer_result [OF nr, of n l] by simp
    with assms None show ?thesis
      by (simp add: col_remove_elem_def Let_def handle_def)
  next
    case (Some r')
    with g have "onRemoveLayer (run (Suc n)) l ?s1 =
        Done ((layer_un l ?s1)\<lparr>store_data := remove1 r' (store_data s),
                                trace := trace ?s1 @ [Model_removed r']\<rparr>)"
      using onRemoveLayer_result [OF nr, of n l] by simp
    with assms Some show ?thesis
      by (simp add: col_remove_elem_def Let_def handle_def)
         (simp add: layer_un_def)
  qed
qed

lemma removed_layer_entry_removed_once:
  assumes "\<not> removing s" "col_remove s = Suc 0" "l \<in> set (layers s)"
    and "getByLayer l s = Some r"
  shows "map_option trace (final (col_remove_elem (run (Suc (Suc n))) l s)) =
           Some (trace s @ [Target_removed l, Model_removed r]) \<and>
         map_option removing (final (col_remove_elem (run (Suc (Suc n))) l s)) = Some False"
  using assms by (simp add: col_remove_elem_result)

lemma removed_entry_layer_removed_once:
  assumes "map_set s" "\<not> removing s" "on_remove s" "r \<in> set (store_data s)"
    and "olLayer (recs s r) \<in> set (layers s)"
  shows "map_option trace (final (store_remove (run (Suc (Suc n))) r s)) =
           Some (trace s @ [Model_removed r, Target_removed (olLayer (recs s r))]) \<and>
         map_option removing (final (store_remove (run (Suc (Suc n))) r s)) = Some False"
  using assms
  by (simp add: store_remove_def Let_def handle_def onRemove_def removeMapLayer_def
        col_remove_elem_def notify_remove_guarded)

lemma layer_title_edit_propagated_once:
  assumes "getByLayer l s = Some r" "title (recs s r) \<noteq> v" "0 < listeners (lyrs s l)"
  shows "map_option trace (final (layer_set (run (Suc (Suc n))) l ''title'' v s)) =
           Some (trace s @ [Target_prop_set l ''title'' v, Model_title_set r v]) \<and>
         map_option (title_of r) (final (layer_set (run (Suc (Suc n))) l ''title'' v s)) = Some v"
proof -
  let ?s1 = "s\<lparr>lyrs := (lyrs s)(l := (lyrs s l)\<lparr>props := (props (lyrs s l))(''title'' := v)\<rparr>),
               trace := trace s @ [Target_prop_set l ''title'' v]\<rparr>"
  let ?s2 = "s\<lparr>lyrs := (lyrs s)(l := (lyrs s l)\<lparr>props := (props (lyrs s l))(''title'' := v)\<rparr>),
               recs := (recs s)(r := (recs s r)
                    \<lparr>title := v,
                     modified_title :=
                       (case modified_title (recs s r) of
                          Some orig \<Rightarrow> if orig = v then None else Some orig
                        | None \<Rightarrow> Some (title (recs s r)))\<rparr>),
               trace := trace s @ [Target_prop_set l ''title'' v, Model_title_set r v]\<rparr>"
  from assms(1) have g1: "getByLayer l ?s1 = Some r"
    by (simp add: getByLayer_cong [of ?s1 s])
  have ol: "olLayer (recs s r) = l"
    using getByLayer_Some [OF assms(1)] by simp
  have first: "onChangeLayer (run (Suc n)) l ''title'' ?s1 = Done ?s2"
    using g1 ol assms(2)
    by (simp add: onChangeLayer_getByLayer record_set_title_def Let_def notify_update_def
          handle_def onStoreUpdate_def)
  have g2: "getByLayer l ?s2 = Some r"
    using g1 by (simp add: getByLayer_same_layers [of ?s2 ?s1])
  have "onChangeLayer (run (Suc n)) l ''title'' ?s2 = Done ?s2"
    by (rule onChangeLayer_title_in_step [OF g2]) simp
  then have rest: "times c (run (Suc (Suc n)) (OnChangeLayer l ''title'')) ?s2 = Done ?s2" for c
    by (intro times_noop) (simp add: handle_def)
  from assms(3) obtain c where c: "listeners (lyrs s l) = Suc c"
    by (cases "listeners (lyrs s l)") simp_all
  have "layer_set (run (Suc (Suc n))) l ''title'' v s = Done ?s2"
    using first rest [of c] c
    by (simp add: layer_set_def Let_def handle_def)
  then show ?thesis
    by (simp add: title_of_def)
qed

lemma entry_title_edit_propagated_once:
  assumes "r \<in> set (store_data s)" "on_update s" "olLayer (recs s r) = l"
    and "getByLayer l s = Some r" "title (recs s r) \<noteq> v" "props (lyrs s l) ''title'' \<noteq> v"
    and "case modified_title (recs s r) of
           None \<Rightarrow> truthy (title (recs s r))
         | Some orig \<Rightarrow> orig \<noteq> v \<and> truthy orig"
  shows "map_option trace
           (final (record_set_title (run (Suc (Suc n))) r v s)) =
           Some (trace s @ [Model_title_set r v, Target_prop_set l ''title'' v]) \<and>
         map_option (layer_title l)
           (final (record_set_title (run (Suc (Suc n))) r v s)) = Some v"
proof -
  let ?m = "case modified_title (recs s r) of
              Some orig \<Rightarrow> (if orig = v then None else Some orig)
            | None \<Rightarrow> Some (title (recs s r))"
  let ?s1 = "s\<lparr>recs := (recs s)(r := (recs s r)\<lparr>title := v, modified_title := ?m\<rparr>),
               trace := trace s @ [Model_title_set r v]\<rparr>"
  have g1: "getByLayer l ?s1 = Some r"
    using assms(4) by (simp add: getByLayer_same_layers [of ?s1 s])
  have tr: "case ?m of None \<Rightarrow> False | Some x \<Rightarrow> truthy x"
    using assms(7) by (simp split: option.splits)
  have t1: "title (recs ?s1 r) = v" by simp
  from layer_set_title_echo [OF g1, of n]
  have echo: "layer_set (run (Suc n)) l ''title'' v ?s1 =
           Done (?s1\<lparr>lyrs := (lyrs ?s1)(l := (lyrs ?s1 l)
                     \<lparr>props := (props (lyrs ?s1 l))(''title'' := v)\<rparr>),
                   trace := trace ?s1 @ [Target_prop_set l ''title'' v]\<rparr>)"
    by (simp only: t1)
  have "onStoreUpdate (run (Suc n)) r EDIT ?s1 =
          layer_set (run (Suc n)) l ''title'' v ?s1"
    using assms(3,6) tr by (simp add: onStoreUpdate_def Let_def)
  with echo assms(1,2,5) have
    "record_set_title (run (Suc (Suc n))) r v s =
       Done (?s1\<lparr>lyrs := (lyrs ?s1)(l := (lyrs ?s1 l)
                     \<lparr>props := (props (lyrs ?s1 l))(''title'' := v)\<rparr>),
                   trace := trace ?s1 @ [Target_prop_set l ''title'' v]\<rparr>)"
    by (simp add: record_set_title_def Let_def notify_update_def handle_def)
  then show ?thesis
    by (simp add: layer_title_def)
qed

text \<open>
  Claim C5, at its failing input. The lemmas above show one propagation, and a silent echo,
  for a layer pushed on the collection or removed from it, for a record inserted in the
  store or removed from it, for a title set on a layer, and for a title set on a record
  whose title before the edit is non-empty. But \<open>onStoreUpdate\<close> tests
  \<open>record.modified.title\<close> for truth, and that entry holds the title before the edit:
  in the bound store whose titles are the empty string, setting the title of record 1
  changes the record and nothing else, no title is set on layer 1. The same edit of a
  record titled \<open>roads\<close> sets the title of the layer once.
\<close>

theorem title_edit_of_untitled_entry_not_propagated:
  "map_option trace
     (final (record_set_title (run (Suc (Suc (Suc 0)))) 1 (Str ''roads'') example_untitled)) =
     Some [Model_title_set 1 (Str ''roads'')] \<and>
   map_option (layer_title 1)
     (final (record_set_title (run (Suc (Suc (Suc 0)))) 1 (Str ''roads'') example_untitled)) =
     Some (Str []) \<and>
   map_option trace
     (final (record_set_title (run (Suc (Suc (Suc 0)))) 1 (Str ''rivers'') example_bound)) =
     Some [Model_title_set 1 (Str ''rivers''), Target_prop_set 1 ''title'' (Str ''rivers'')]"
  by code_simp

subsection \<open>Every handler returns or throws\<close>

























subsection \<open>A property change of a layer\<close>

text \<open>
  Claim C6, amended. When a layer fires \<open>propertychange\<close>: with no record for the layer,
  \<open>onChangeLayer\<close> changes nothing. With a record and the key \<open>title\<close>, it sets the
  record's title to the layer's and calls no \<open>fireEvent\<close>; but \<open>record.set\<close>, when it
  changes the title, has the store notify \<open>update\<close> with \<open>EDIT\<close> to whatever listens
  (\<open>k\<close>); with the handlers of this file listening, only that one field of that one
  record changes. With a record and any other key, it fires \<open>update\<close> with \<open>EDIT\<close>
  itself, and every record, and so every title of a record, stays as it was.
\<close>

theorem title_change_sets_title_and_store_notifies:
  "(getByLayer layer s = None \<longrightarrow> onChangeLayer k layer key s = Done s) \<and>
   (getByLayer layer s = Some r \<longrightarrow>
      onChangeLayer k layer ''title'' s =
        (let s1 = s\<lparr>recs := (recs s)(r := (recs s r)
                       \<lparr>title := props (lyrs s layer) ''title'',
                        modified_title :=
                          (case modified_title (recs s r) of
                             Some orig \<Rightarrow>
                               if orig = props (lyrs s layer) ''title'' then None else Some orig
                           | None \<Rightarrow> Some (title (recs s r)))\<rparr>),
                     trace := trace s @ [Model_title_set r (props (lyrs s layer) ''title'')]\<rparr>
         in if title (recs s r) = props (lyrs s layer) ''title'' then Done s
            else if on_update s then k (OnStoreUpdate r EDIT) s1
            else Done s1) \<and>
      onChangeLayer (run (Suc n)) layer ''title'' s =
        Done (if title (recs s r) = props (lyrs s layer) ''title'' then s
              else s\<lparr>recs := (recs s)(r := (recs s r)
                       \<lparr>title := props (lyrs s layer) ''title'',
                        modified_title :=
                          (case modified_title (recs s r) of
                             Some orig \<Rightarrow>
                               if orig = props (lyrs s layer) ''title'' then None else Some orig
                           | None \<Rightarrow> Some (title (recs s r)))\<rparr>),
                     trace := trace s @ [Model_title_set r (props (lyrs s layer) ''title'')]\<rparr>)) \<and>
   (getByLayer layer s = Some r \<and> key \<noteq> ''title'' \<longrightarrow>
      onChangeLayer k layer key s =
        (if on_update s
         then k (OnStoreUpdate r EDIT) (s\<lparr>trace := trace s @ [Update_fired r EDIT]\<rparr>)
         else Done (s\<lparr>trace := trace s @ [Update_fired r EDIT]\<rparr>)) \<and>
      (\<exists>s'. onChangeLayer (run (Suc (Suc n))) layer key s = Done s' \<and>
            recs s' = recs s \<and> store_data s' = store_data s \<and> layers s' = layers s \<and>
            take (Suc (length (trace s))) (trace s') = trace s @ [Update_fired r EDIT]))"
proof (intro conjI impI)
  assume "getByLayer layer s = None"
  then show "onChangeLayer k layer key s = Done s"
    by (simp add: onChangeLayer_getByLayer)
next
  assume g: "getByLayer layer s = Some r"
  then have "r \<in> set (store_data s)" by (simp add: getByLayer_Some)
  with g show "onChangeLayer k layer ''title'' s =
        (let s1 = s\<lparr>recs := (recs s)(r := (recs s r)
                       \<lparr>title := props (lyrs s layer) ''title'',
                        modified_title :=
                          (case modified_title (recs s r) of
                             Some orig \<Rightarrow>
                               if orig = props (lyrs s layer) ''title'' then None else Some orig
                           | None \<Rightarrow> Some (title (recs s r)))\<rparr>),
                     trace := trace s @ [Model_title_set r (props (lyrs s layer) ''title'')]\<rparr>
         in if title (recs s r) = props (lyrs s layer) ''title'' then Done s
            else if on_update s then k (OnStoreUpdate r EDIT) s1
            else Done s1)"
    by (simp add: onChangeLayer_getByLayer record_set_title_def Let_def notify_update_def)
next
  assume g: "getByLayer layer s = Some r"
  then have "olLayer (recs s r) = layer" by (simp add: getByLayer_Some)
  from record_set_title_result [OF this, of n] g
  show "onChangeLayer (run (Suc n)) layer ''title'' s =
        Done (if title (recs s r) = props (lyrs s layer) ''title'' then s
              else s\<lparr>recs := (recs s)(r := (recs s r)
                       \<lparr>title := props (lyrs s layer) ''title'',
                        modified_title :=
                          (case modified_title (recs s r) of
                             Some orig \<Rightarrow>
                               if orig = props (lyrs s layer) ''title'' then None else Some orig
                           | None \<Rightarrow> Some (title (recs s r)))\<rparr>),
                     trace := trace s @ [Model_title_set r (props (lyrs s layer) ''title'')]\<rparr>)"
    by (simp add: onChangeLayer_getByLayer)
next
  assume a: "getByLayer layer s = Some r \<and> key \<noteq> ''title''"
  then show "onChangeLayer k layer key s =
        (if on_update s
         then k (OnStoreUpdate r EDIT) (s\<lparr>trace := trace s @ [Update_fired r EDIT]\<rparr>)
         else Done (s\<lparr>trace := trace s @ [Update_fired r EDIT]\<rparr>))"
    by (simp add: onChangeLayer_getByLayer notify_update_def)
next
  assume a: "getByLayer layer s = Some r \<and> key \<noteq> ''title''"
  let ?sT = "s\<lparr>trace := trace s @ [Update_fired r EDIT]\<rparr>"
  from a have g: "getByLayer layer ?sT = Some r"
    by (simp add: getByLayer_cong [of ?sT s])
  from onStoreUpdate_cases [OF g, of n EDIT]
  obtain s' where s': "onStoreUpdate (run (Suc n)) r EDIT ?sT = Done s'" "recs s' = recs s"
      "store_data s' = store_data s" "layers s' = layers s"
      "take (length (trace ?sT)) (trace s') = trace ?sT"
    by auto
  show "\<exists>s'. onChangeLayer (run (Suc (Suc n))) layer key s = Done s' \<and>
            recs s' = recs s \<and> store_data s' = store_data s \<and> layers s' = layers s \<and>
            take (Suc (length (trace s))) (trace s') = trace s @ [Update_fired r EDIT]"
  proof (cases "on_update s")
    case True
    with a s' show ?thesis
      by (simp add: onChangeLayer_getByLayer notify_update_def handle_def)
  next
    case False
    with a show ?thesis
      by (simp add: onChangeLayer_getByLayer notify_update_def)
  qed
qed

text \<open>
  As the claim was stated it fails: on the title path an \<open>update\<close> notification does go
  out on the store. After the title of layer 2 was set to \<open>rivers\<close>, the handler sets the
  title of record 2, and a listener of the store's \<open>update\<close> event receives the edit.
\<close>

theorem title_change_notified_counterexample:
  "map_option trace (final (onChangeLayer recording_listener 2 ''title'' example_retitled)) =
     Some [Model_title_set 2 (Str ''rivers''), Update_notified 2 EDIT] \<and>
   map_option (title_of 2) (final (onChangeLayer recording_listener 2 ''title'' example_retitled)) =
     Some (Str ''rivers'')"
  by code_simp

theorem title_change_witness:
  "getByLayer 7 example_retitled = None \<and>
   onChangeLayer (run 0) 7 ''title'' example_retitled = Done example_retitled \<and>
   getByLayer 2 example_retitled = Some 2 \<and> ''opacity'' \<noteq> ''title'' \<and>
   title (recs example_retitled 2) = Str ''roads'' \<and>
   props (lyrs example_retitled 2) ''title'' = Str ''rivers'' \<and>
   map_option (title_of 2) (final (onChangeLayer (run (Suc 0)) 2 ''title'' example_retitled)) =
     Some (Str ''rivers'') \<and>
   map_option trace (final (onChangeLayer (run (Suc 0)) 2 ''title'' example_retitled)) =
     Some [Model_title_set 2 (Str ''rivers'')] \<and>
   map_option trace (final (onChangeLayer recording_listener 2 ''title'' example_retitled)) =
     Some [Model_title_set 2 (Str ''rivers''), Update_notified 2 EDIT] \<and>
   map_option trace (final (onChangeLayer recording_listener 2 ''opacity'' example_retitled)) =
     Some [Update_fired 2 EDIT, Update_notified 2 EDIT] \<and>
   (\<exists>s'. onChangeLayer (run (Suc (Suc 0))) 2 ''opacity'' example_retitled = Done s' \<and>
         recs s' = recs example_retitled \<and>
         take 1 (trace s') = [Update_fired 2 EDIT])"
proof -
  have g7: "getByLayer 7 example_retitled = None"
    by (simp add: getByLayer_def example_retitled_def example_bound_def Let_def)
  have g2: "getByLayer 2 example_retitled = Some 2"
    by (simp add: getByLayer_def example_retitled_def example_bound_def Let_def getAt_def)
  have t: "trace example_retitled = []" "title (recs example_retitled 2) = Str ''roads''"
    "props (lyrs example_retitled 2) ''title'' = Str ''rivers''" "on_update example_retitled"
    "modified_title (recs example_retitled 2) = None"
    by (simp_all add: example_retitled_def example_bound_def)
  have rl: "recording_listener (OnStoreUpdate 2 EDIT) st =
              Done (st\<lparr>trace := trace st @ [Update_notified 2 EDIT]\<rparr>)" for st
    by (simp add: recording_listener_def)
  from title_change_sets_title_and_store_notifies
         [where layer = 7 and s = example_retitled and r = 2 and k = "run 0"
            and key = "''title''" and n = 0]
       title_change_sets_title_and_store_notifies
         [where layer = 2 and s = example_retitled and r = 2 and k = recording_listener
            and key = "''opacity''" and n = 0]
       g7 g2 t rl
  show ?thesis by (auto simp: Let_def title_of_def)
qed

subsection \<open>A failed import\<close>

lemma load_failure_leaves_state:
  "onLoad k records False s = Done (s\<lparr>addRecords := False\<rparr>) \<and>
   (reader s raw = Some result \<and> \<not> result_success result \<longrightarrow>
      loadRawData k raw do_append s = Done s)"
  by (simp add: onLoad_def loadRawData_def)


text \<open>
  Claim C9, at its failing input. On the load path the claim holds: a \<open>load\<close>
  notification whose success flag is false only resets \<open>_addRecords\<close>, and
  \<open>loadRawData\<close> leaves the state alone when the reader's result is unsuccessful (the
  first lemma above). But \<open>onAddLayer\<close> reads too and never looks at \<open>result.success\<close>
  (the second lemma): when layer 3 is pushed on the bound map and the reader reports
  failure, layer 3 has a listener afterwards, where \<open>onLoad\<close> would attach none; and if
  the failed result carries records, they are inserted in the store.
\<close>

theorem failed_import_on_added_layer:
  "map_option (listeners_of 3) (Some example_failing_reader) = Some 0 \<and>
   map_option (listeners_of 3)
     (final (col_push (run (Suc (Suc 0))) 3 example_failing_reader)) = Some 1 \<and>
   map_option store_data (Some example_failing_with_records) = Some [1, 2] \<and>
   map_option store_data
     (final (col_push (run (Suc (Suc 0))) 3 example_failing_with_records)) = Some [1, 2, 3] \<and>
   map_option (listeners_of 3)
     (final (col_push (run (Suc (Suc 0))) 3 example_failing_with_records)) = Some 1 \<and>
   map_option layers
     (final (loadRawData (run (Suc (Suc 0))) [3] False example_failing_with_records)) =
     Some [1, 2]"
  by code_simp

subsection \<open>A replaced entry and a removed entry\<close>

text \<open>
  Claim C7, at its failing input. \<open>onReplace\<close> only calls \<open>removeMapLayer\<close>; it has
  neither the \<open>layer.un\<close> nor the \<open>_removing\<close> guard that \<open>onRemove\<close> puts around the
  same call. In the store where record 3 has replaced record 1, \<open>onReplace\<close> for record
  1 takes layer 1 out of the map and leaves its listener, which \<open>onRemove\<close> detaches.
  In the store where record 4, backed by layer 1 as well, has replaced record 1, the
  removal of layer 1 by \<open>onReplace\<close> reaches \<open>onRemoveLayer\<close> unguarded, which takes
  record 4, the replacement, out of the store; under \<open>onRemove\<close> the store keeps it.
  (Lemma \<open>onReplace_result\<close> gives the result of \<open>onReplace\<close> for any bound store.)
\<close>

theorem replace_not_treated_as_remove:
  "map_option layers (final (run (Suc (Suc 0)) (OnReplace 1) example_replaced)) = Some [2] \<and>
   map_option (listeners_of 1) (final (run (Suc (Suc 0)) (OnReplace 1) example_replaced)) = Some 1 \<and>
   map_option layers (final (run (Suc (Suc 0)) (OnRemove 1) example_replaced)) = Some [2] \<and>
   map_option (listeners_of 1) (final (run (Suc (Suc 0)) (OnRemove 1) example_replaced)) = Some 0 \<and>
   map_option store_data (final (run (Suc (Suc (Suc 0))) (OnReplace 1) example_rebacked)) = Some [2] \<and>
   map_option store_data (final (run (Suc (Suc (Suc 0))) (OnRemove 1) example_rebacked)) = Some [4, 2]"
  by code_simp

subsection \<open>A load notification\<close>




lemma props_fold_layer_un [simp]: "props (lyrs (fold layer_un xs s) l) = props (lyrs s l)"
  by (induction xs arbitrary: s) simp_all

lemma props_fold_layer_on [simp]: "props (lyrs (fold layer_on xs s) l) = props (lyrs s l)"
  by (induction xs arbitrary: s) simp_all

lemma props_funpow_layer_on [simp]: "props (lyrs ((layer_on x ^^ c) s) l) = props (lyrs s l)"
  by (induction c) simp_all

lemma props_fold_pushed [simp]: "props (lyrs (fold pushed xs s) l) = props (lyrs s l)"
  by (induction xs arbitrary: s) (simp_all add: pushed_def)

lemma col_remove_fold_fields [simp]:
  "col_remove (fold layer_un xs s) = col_remove s"
  "col_remove (fold layer_on xs s) = col_remove s"
  "col_remove (fold (\<lambda>_. popped) xs s) = col_remove s"
  "col_remove (fold pushed xs s) = col_remove s"
  by (induction xs arbitrary: s) simp_all




text \<open>
  The flag is not the load: the loads of \<open>bindMap\<close> are additive and reach no \<open>onLoad\<close>,
  which is registered after them, so the flag is still set when the binding is done, and
  the next load, additive or not, does not clear.
\<close>

lemma load_after_bind_finds_flag_set:
  "map_option addRecords (final (bindMap (run (Suc 0)) example_unbound)) = Some True \<and>
   map_option layers
     (final (then_do (bindMap (run (Suc 0)) example_unbound)
               (loadRawData (run (Suc (Suc 0))) [3] False))) = Some [1, 2, 3]"
  by code_simp

subsection \<open>The guard flags when a handler throws\<close>



lemma flags_stay_refl [simp]: "flags_stay s s"
  by (simp add: flags_stay_def)


lemma flags_stay_same:
  "adding s1 = adding s \<Longrightarrow> removing s1 = removing s \<Longrightarrow> flags_stay s s1"
  by (simp add: flags_stay_def)






























end
